theory Spec2Isabelle
  imports Main "HOL-Library.Char_ord" "HOL-Library.List_Lexorder"
begin

section \<open>JSON documents, byte strings and errors\<close>

text \<open>
  The program exchanges JSON with the inference server and receives the arguments of a
  tool call as \<^verbatim>\<open>json.RawMessage\<close>, a byte string. A byte string is modelled by what
  \<^verbatim>\<open>encoding/json\<close> makes of it: either it is not a JSON text (\<open>Unparsable\<close>, with
  the bytes and the message of the syntax error the library reports), or it is the text
  of a JSON value (\<open>Parsable\<close>). The empty byte string, which is also the \<^verbatim>\<open>nil\<close>
  \<^verbatim>\<open>RawMessage\<close>, is \<open>no_bytes\<close>.
\<close>

datatype json =
    JNull
  | JBool bool
  | JNumber string
  | JString string
  | JArray "json list"
  | JObject "(string \<times> json) list"

datatype bytes = Unparsable string string | Parsable json

definition no_bytes :: bytes where
  "no_bytes = Unparsable [] ''unexpected end of JSON input''"

fun kind :: "json \<Rightarrow> string" where
  "kind JNull = ''null''"
| "kind (JBool b) = ''bool''"
| "kind (JNumber n) = ''number''"
| "kind (JString s) = ''string''"
| "kind (JArray vs) = ''array''"
| "kind (JObject ms) = ''object''"

text \<open>\<^verbatim>\<open>strings.Join\<close>.\<close>

fun join :: "string list \<Rightarrow> string \<Rightarrow> string" where
  "join [] sep = []"
| "join [x] sep = x"
| "join (x # y # ys) sep = x @ sep @ join (y # ys) sep"

text \<open>
  The string literal \<^verbatim>\<open>json.Marshal\<close> writes for a Go string (HTML escaping on, as
  \<^verbatim>\<open>Marshal\<close> has it), byte by byte as \<^verbatim>\<open>appendString\<close> does. Below 0x80: the
  quote and the backslash are escaped with a backslash, five control characters have
  short forms, the other bytes below 0x20 and the three HTML characters become
  \<^verbatim>\<open>\u00XX\<close>, every other byte is copied. From 0x80 on the library decodes a rune with
  \<^verbatim>\<open>utf8.DecodeRuneInString\<close>: a byte that does not begin a well-formed UTF-8 sequence
  is written as \<^verbatim>\<open>\ufffd\<close>, the line and paragraph separators U+2028 and U+2029 are
  written as \<^verbatim>\<open>\u2028\<close> and \<^verbatim>\<open>\u2029\<close>, and any other well-formed sequence is
  copied.

  \<open>rune_width\<close> is the size \<^verbatim>\<open>utf8.DecodeRuneInString\<close> returns on bytes (given as
  numbers) whose first is 0x80 or more: the length of the well-formed sequence at the
  front, and 1 where there is none.
\<close>

definition hex :: "nat \<Rightarrow> char" where
  "hex n = ''0123456789abcdef'' ! (n mod 16)"

definition escape :: "char \<Rightarrow> string" where
  "escape c =
     (if c = CHR 0x5C \<or> c = CHR 0x22 then [CHR 0x5C, c]
      else if c = CHR 0x08 then [CHR 0x5C, CHR ''b'']
      else if c = CHR 0x0C then [CHR 0x5C, CHR ''f'']
      else if c = CHR 0x0A then [CHR 0x5C, CHR ''n'']
      else if c = CHR 0x0D then [CHR 0x5C, CHR ''r'']
      else if c = CHR 0x09 then [CHR 0x5C, CHR ''t'']
      else if (of_char c :: nat) < 32 \<or> c = CHR ''<'' \<or> c = CHR ''>'' \<or> c = CHR ''&''
        then [CHR 0x5C] @ ''u00'' @ [hex (of_char c div 16), hex (of_char c)]
      else [c])"

definition between :: "nat \<Rightarrow> nat \<Rightarrow> nat \<Rightarrow> bool" where
  "between lo hi x = (lo \<le> x \<and> x \<le> hi)"

definition rune_width :: "nat list \<Rightarrow> nat" where
  "rune_width bs =
     (case bs of
        [] \<Rightarrow> 1
      | b0 # r1 \<Rightarrow>
          if between 0xC2 0xDF b0 then
            (case r1 of
               [] \<Rightarrow> 1
             | b1 # r2 \<Rightarrow> if between 0x80 0xBF b1 then 2 else 1)
          else if between 0xE0 0xEF b0 then
            (case r1 of
               b1 # b2 # r3 \<Rightarrow>
                 if between (if b0 = 0xE0 then 0xA0 else 0x80) (if b0 = 0xED then 0x9F else 0xBF) b1
                    \<and> between 0x80 0xBF b2
                 then 3 else 1
             | _ \<Rightarrow> 1)
          else if between 0xF0 0xF4 b0 then
            (case r1 of
               b1 # b2 # b3 # r4 \<Rightarrow>
                 if between (if b0 = 0xF0 then 0x90 else 0x80) (if b0 = 0xF4 then 0x8F else 0xBF) b1
                    \<and> between 0x80 0xBF b2 \<and> between 0x80 0xBF b3
                 then 4 else 1
             | _ \<Rightarrow> 1)
          else 1)"

fun escape_bytes :: "string \<Rightarrow> string" where
  "escape_bytes [] = []"
| "escape_bytes (c # s) =
     (if (of_char c :: nat) < 0x80 then escape c @ escape_bytes s
      else if rune_width (map of_char (take 4 (c # s))) = 1
        then [CHR 0x5C] @ ''ufffd'' @ escape_bytes s
      else if take 3 (c # s) = [CHR 0xE2, CHR 0x80, CHR 0xA8]
        then [CHR 0x5C] @ ''u2028'' @ escape_bytes (drop 2 s)
      else if take 3 (c # s) = [CHR 0xE2, CHR 0x80, CHR 0xA9]
        then [CHR 0x5C] @ ''u2029'' @ escape_bytes (drop 2 s)
      else take (rune_width (map of_char (take 4 (c # s)))) (c # s)
           @ escape_bytes (drop (rune_width (map of_char (take 4 (c # s))) - 1) s))"

definition json_string :: "string \<Rightarrow> string" where
  "json_string s = [CHR 0x22] @ escape_bytes s @ [CHR 0x22]"

text \<open>The text of a JSON value, in compact form.\<close>

fun compact :: "json \<Rightarrow> string" where
  "compact JNull = ''null''"
| "compact (JBool b) = (if b then ''true'' else ''false'')"
| "compact (JNumber n) = n"
| "compact (JString s) = json_string s"
| "compact (JArray vs) = ''['' @ join (map compact vs) '','' @ '']''"
| "compact (JObject ms) =
     ''{'' @ join (map (\<lambda>(k, v). json_string k @ '':'' @ compact v) ms) '','' @ ''}''"

fun string_of_bytes :: "bytes \<Rightarrow> string" where
  "string_of_bytes (Unparsable s msg) = s"
| "string_of_bytes (Parsable v) = compact v"

text \<open>
  Go's \<^verbatim>\<open>error\<close> values, as far as the program meets them, and their \<^verbatim>\<open>Error()\<close>
  texts: \<^verbatim>\<open>*json.SyntaxError\<close> (its message), \<^verbatim>\<open>*json.UnmarshalTypeError\<close> (the
  JSON kind found, the Go type wanted, the struct and the field), the error of
  \<^verbatim>\<open>RawMessage.MarshalJSON\<close>, \<^verbatim>\<open>*fs.PathError\<close> (operation, path, cause), an error
  of \<^verbatim>\<open>net/http\<close> or \<^verbatim>\<open>io\<close> (its message), and the error \<^verbatim>\<open>Chat\<close> builds with
  \<^verbatim>\<open>fmt.Errorf\<close> around a parse error and the body.
\<close>

datatype error =
    SyntaxError string
  | UnmarshalTypeError string string string string
  | MarshalerError string
  | PathError string string string
  | NetError string
  | Errorf_parse error string

fun Error :: "error \<Rightarrow> string" where
  "Error (SyntaxError msg) = msg"
| "Error (UnmarshalTypeError v t s f) =
     (if s \<noteq> [] \<or> f \<noteq> []
      then ''json: cannot unmarshal '' @ v @ '' into Go struct field '' @ s @ ''.'' @ f
             @ '' of type '' @ t
      else ''json: cannot unmarshal '' @ v @ '' into Go value of type '' @ t)"
| "Error (MarshalerError msg) =
     ''json: error calling MarshalJSON for type json.RawMessage: '' @ msg"
| "Error (PathError op p cause) = op @ '' '' @ p @ '': '' @ cause"
| "Error (NetError msg) = msg"
| "Error (Errorf_parse err body) =
     ''failed to parse response: '' @ Error err @ '', body: '' @ body"

section \<open>Decoding with \<^verbatim>\<open>json.Unmarshal\<close>\<close>

text \<open>
  \<^verbatim>\<open>json.Unmarshal\<close> first checks that the bytes are a JSON text. It then stores the
  value: \<^verbatim>\<open>null\<close> leaves the destination as it is; an object is stored into a
  struct member by member, in order, a key choosing the field whose name equals it under
  Unicode case folding, and a key that matches no field being skipped; any other
  combination is an \<^verbatim>\<open>UnmarshalTypeError\<close>. The library goes on after a type error and
  reports the first one at the end; the program throws the destination away whenever an
  error is reported, so the model stops at the first error.

  The field names of the program are ASCII. Folding makes the two cases of an ASCII
  letter equal, and besides them only the long s (U+017F, the bytes C5 BF) equal to
  \<^verbatim>\<open>s\<close> and the Kelvin sign (U+212A, the bytes E2 84 AA) equal to \<^verbatim>\<open>k\<close>.
\<close>

fun fold_special :: "string \<Rightarrow> string" where
  "fold_special (a # b # c # s) =
     (if [a, b, c] = [CHR 0xE2, CHR 0x84, CHR 0xAA] then CHR ''k'' # fold_special s
      else if [a, b] = [CHR 0xC5, CHR 0xBF] then CHR ''s'' # fold_special (c # s)
      else a # fold_special (b # c # s))"
| "fold_special [a, b] = (if [a, b] = [CHR 0xC5, CHR 0xBF] then ''s'' else [a, b])"
| "fold_special s = s"

definition lower :: "char \<Rightarrow> char" where
  "lower c =
     (case map_of (zip ''ABCDEFGHIJKLMNOPQRSTUVWXYZ'' ''abcdefghijklmnopqrstuvwxyz'') c of
        None \<Rightarrow> c
      | Some l \<Rightarrow> l)"

definition equal_fold :: "string \<Rightarrow> string \<Rightarrow> bool" where
  "equal_fold a b = (map lower (fold_special a) = map lower (fold_special b))"

fun store_string :: "string \<Rightarrow> string \<Rightarrow> json \<Rightarrow> string \<Rightarrow> error + string" where
  "store_string s f (JString x) cur = Inr x"
| "store_string s f JNull cur = Inr cur"
| "store_string s f v cur = Inl (UnmarshalTypeError (kind v) ''string'' s f)"

fun store_bool :: "string \<Rightarrow> string \<Rightarrow> json \<Rightarrow> bool \<Rightarrow> error + bool" where
  "store_bool s f (JBool x) cur = Inr x"
| "store_bool s f JNull cur = Inr cur"
| "store_bool s f v cur = Inl (UnmarshalTypeError (kind v) ''bool'' s f)"

fun store_members ::
  "(string \<Rightarrow> json \<Rightarrow> 'a \<Rightarrow> error + 'a) \<Rightarrow> (string \<times> json) list \<Rightarrow> 'a \<Rightarrow> error + 'a" where
  "store_members field [] cur = Inr cur"
| "store_members field ((k, v) # ms) cur =
     (case field k v cur of
        Inl err \<Rightarrow> Inl err
      | Inr cur' \<Rightarrow> store_members field ms cur')"

fun store_struct ::
  "string \<Rightarrow> string \<Rightarrow> string \<Rightarrow> (string \<Rightarrow> json \<Rightarrow> 'a \<Rightarrow> error + 'a) \<Rightarrow> json \<Rightarrow> 'a \<Rightarrow> error + 'a"
  where
  "store_struct t s f field JNull cur = Inr cur"
| "store_struct t s f field (JObject ms) cur = store_members field ms cur"
| "store_struct t s f field v cur = Inl (UnmarshalTypeError (kind v) t s f)"

fun store_elems :: "(json \<Rightarrow> error + 'a) \<Rightarrow> json list \<Rightarrow> error + 'a list" where
  "store_elems elem [] = Inr []"
| "store_elems elem (v # vs) =
     (case elem v of
        Inl err \<Rightarrow> Inl err
      | Inr x \<Rightarrow> (case store_elems elem vs of Inl err \<Rightarrow> Inl err | Inr xs \<Rightarrow> Inr (x # xs)))"

fun json_Unmarshal :: "bytes \<Rightarrow> (json \<Rightarrow> error + 'a) \<Rightarrow> error + 'a" where
  "json_Unmarshal (Unparsable s msg) store = Inl (SyntaxError msg)"
| "json_Unmarshal (Parsable v) store = store v"

section \<open>The messages of the chat protocol\<close>

text \<open>
  The structs of \<^verbatim>\<open>main.go\<close>. The nested struct \<^verbatim>\<open>Function\<close> of \<^verbatim>\<open>ToolCall\<close>
  and of \<^verbatim>\<open>OllamaTool\<close> is flattened into the fields \<open>Call_\<close> and \<open>Tool_\<close>. The
  \<^verbatim>\<open>Parameters\<close> of a tool, a map of JSON-like values, is a JSON object.
\<close>

record ToolCall =
  Call_Name :: string
  Call_Arguments :: bytes

record OllamaMessage =
  Role :: string
  Content :: string
  ToolCalls :: "ToolCall list"

record OllamaTool =
  Tool_Type :: string
  Tool_Name :: string
  Tool_Description :: string
  Tool_Parameters :: json

record OllamaRequest =
  Model :: string
  Messages :: "OllamaMessage list"
  Tools :: "OllamaTool list"
  Stream :: bool

record OllamaResponse =
  Message :: OllamaMessage
  Done :: bool

text \<open>The zero values Go gives to a fresh variable of each type.\<close>

definition zero_ToolCall :: ToolCall where
  "zero_ToolCall = \<lparr>Call_Name = [], Call_Arguments = no_bytes\<rparr>"

definition zero_OllamaMessage :: OllamaMessage where
  "zero_OllamaMessage = \<lparr>Role = [], Content = [], ToolCalls = []\<rparr>"

definition zero_OllamaResponse :: OllamaResponse where
  "zero_OllamaResponse = \<lparr>Message = zero_OllamaMessage, Done = False\<rparr>"

text \<open>
  Storing a JSON value into an \<^verbatim>\<open>OllamaResponse\<close>, field by field along the
  \<^verbatim>\<open>json\<close> tags. The \<^verbatim>\<open>arguments\<close> of a tool call are a \<^verbatim>\<open>RawMessage\<close>: the text
  of whatever value stands there is kept, \<^verbatim>\<open>null\<close> included.
\<close>

definition Function_type :: string where
  "Function_type =
     ''struct { Name string '' @ [CHR 0x22] @ ''json:'' @ [CHR 0x5C, CHR 0x22] @ ''name''
       @ [CHR 0x5C, CHR 0x22, CHR 0x22] @ ''; Arguments json.RawMessage '' @ [CHR 0x22] @ ''json:''
       @ [CHR 0x5C, CHR 0x22] @ ''arguments'' @ [CHR 0x5C, CHR 0x22, CHR 0x22] @ '' }''"

definition Function_field :: "string \<Rightarrow> json \<Rightarrow> ToolCall \<Rightarrow> error + ToolCall" where
  "Function_field k v c =
     (if equal_fold k ''name'' then
        (case store_string [] ''message.tool_calls.function.name'' v (Call_Name c) of
           Inl err \<Rightarrow> Inl err
         | Inr x \<Rightarrow> Inr (c\<lparr>Call_Name := x\<rparr>))
      else if equal_fold k ''arguments'' then Inr (c\<lparr>Call_Arguments := Parsable v\<rparr>)
      else Inr c)"

definition ToolCall_field :: "string \<Rightarrow> json \<Rightarrow> ToolCall \<Rightarrow> error + ToolCall" where
  "ToolCall_field k v c =
     (if equal_fold k ''function''
      then store_struct Function_type ''ToolCall'' ''message.tool_calls.function'' Function_field v c
      else Inr c)"

fun store_ToolCalls :: "json \<Rightarrow> ToolCall list \<Rightarrow> error + ToolCall list" where
  "store_ToolCalls JNull cur = Inr []"
| "store_ToolCalls (JArray vs) cur =
     store_elems
       (\<lambda>v. store_struct ''main.ToolCall'' ''OllamaMessage'' ''message.tool_calls'' ToolCall_field v
              zero_ToolCall) vs"
| "store_ToolCalls v cur =
     Inl (UnmarshalTypeError (kind v) ''[]main.ToolCall'' ''OllamaMessage'' ''message.tool_calls'')"

definition OllamaMessage_field :: "string \<Rightarrow> json \<Rightarrow> OllamaMessage \<Rightarrow> error + OllamaMessage" where
  "OllamaMessage_field k v m =
     (if equal_fold k ''role'' then
        (case store_string ''OllamaMessage'' ''message.role'' v (Role m) of
           Inl err \<Rightarrow> Inl err
         | Inr x \<Rightarrow> Inr (m\<lparr>Role := x\<rparr>))
      else if equal_fold k ''content'' then
        (case store_string ''OllamaMessage'' ''message.content'' v (Content m) of
           Inl err \<Rightarrow> Inl err
         | Inr x \<Rightarrow> Inr (m\<lparr>Content := x\<rparr>))
      else if equal_fold k ''tool_calls'' then
        (case store_ToolCalls v (ToolCalls m) of
           Inl err \<Rightarrow> Inl err
         | Inr x \<Rightarrow> Inr (m\<lparr>ToolCalls := x\<rparr>))
      else Inr m)"

definition OllamaResponse_field :: "string \<Rightarrow> json \<Rightarrow> OllamaResponse \<Rightarrow> error + OllamaResponse"
  where
  "OllamaResponse_field k v r =
     (if equal_fold k ''message'' then
        (case store_struct ''main.OllamaMessage'' ''OllamaResponse'' ''message'' OllamaMessage_field v
                (Message r) of
           Inl err \<Rightarrow> Inl err
         | Inr x \<Rightarrow> Inr (r\<lparr>Message := x\<rparr>))
      else if equal_fold k ''done'' then
        (case store_bool ''OllamaResponse'' ''done'' v (Done r) of
           Inl err \<Rightarrow> Inl err
         | Inr x \<Rightarrow> Inr (r\<lparr>Done := x\<rparr>))
      else Inr r)"

definition Unmarshal_OllamaResponse :: "bytes \<Rightarrow> error + OllamaResponse" where
  "Unmarshal_OllamaResponse body =
     json_Unmarshal body
       (\<lambda>v. store_struct ''main.OllamaResponse'' [] [] OllamaResponse_field v zero_OllamaResponse)"

section \<open>The file system\<close>

text \<open>
  The file system is an external collaborator. It is a function from the path names the
  program hands to \<^verbatim>\<open>os\<close> and \<^verbatim>\<open>filepath\<close> to what lies there: nothing, a file
  with its content, a file that may not be read, a directory with its named entries, or
  a directory that may not be read (with the error reading it gives). It does not
  change while the program runs.
\<close>

datatype fsnode =
    File string
  | Unreadable_file
  | Dir "(string \<times> fsnode) list"
  | Unreadable_dir error

type_synonym filesystem = "string \<Rightarrow> fsnode option"

fun os_ReadFile :: "filesystem \<Rightarrow> string \<Rightarrow> error + string" where
  "os_ReadFile fs name =
     (case fs name of
        None \<Rightarrow> Inl (PathError ''open'' name ''no such file or directory'')
      | Some (File content) \<Rightarrow> Inr content
      | Some Unreadable_file \<Rightarrow> Inl (PathError ''open'' name ''permission denied'')
      | Some (Dir es) \<Rightarrow> Inl (PathError ''read'' name ''is a directory'')
      | Some (Unreadable_dir err) \<Rightarrow> Inl (PathError ''open'' name ''permission denied''))"

text \<open>
  \<^verbatim>\<open>filepath.Walk\<close> calls its function on the root and then, directory by directory, on
  the entries in the order of their names (\<^verbatim>\<open>readDirNames\<close> sorts them), entering a
  directory right after visiting it. The function gets the path, and either the file
  information (here: whether it is a directory) or the error met at that path. The walk
  stops at the first error the function returns. The function of \<^verbatim>\<open>ListFiles\<close> never
  returns \<^verbatim>\<open>SkipDir\<close> or \<^verbatim>\<open>SkipAll\<close>, which are therefore left out. As the file
  system does not change during the walk, an entry that was listed is there when the
  walk comes to it.

  A path of the walk is the list of entry names that lead to it from the root.
  \<^verbatim>\<open>filepath.Rel\<close> of the root and such a path is the names joined by the separator,
  and \<^verbatim>\<open>.\<close> for the root itself.
\<close>

type_synonym path = "string list"

datatype visit = Entry bool | Failed error

type_synonym 's WalkFunc = "path \<Rightarrow> visit \<Rightarrow> 's \<Rightarrow> error option \<times> 's"

definition filepath_Join :: "path \<Rightarrow> string \<Rightarrow> path" where
  "filepath_Join p name = p @ [name]"

definition filepath_Rel :: "path \<Rightarrow> error + string" where
  "filepath_Rel p = Inr (if p = [] then ''.'' else join p ''/'')"

function walk :: "path \<Rightarrow> fsnode \<Rightarrow> 's WalkFunc \<Rightarrow> 's \<Rightarrow> error option \<times> 's"
  and walk_names :: "path \<Rightarrow> (string \<times> fsnode) list \<Rightarrow> 's WalkFunc \<Rightarrow> 's \<Rightarrow> error option \<times> 's"
  where
  "walk p (File content) walkFn s = walkFn p (Entry False) s"
| "walk p Unreadable_file walkFn s = walkFn p (Entry False) s"
| "walk p (Unreadable_dir err) walkFn s = walkFn p (Failed err) s"
| "walk p (Dir es) walkFn s =
     (case walkFn p (Entry True) s of
        (Some err1, s') \<Rightarrow> (Some err1, s')
      | (None, s') \<Rightarrow> walk_names p (sort_key fst es) walkFn s')"
| "walk_names p [] walkFn s = (None, s)"
| "walk_names p ((name, node) # rest) walkFn s =
     (case walk (filepath_Join p name) node walkFn s of
        (Some err, s') \<Rightarrow> (Some err, s')
      | (None, s') \<Rightarrow> walk_names p rest walkFn s')"
  by pat_completeness auto

termination walk
proof -
  have ins: "size_list f (insort_key k x xs) = Suc (f x + size_list f xs)"
    for f :: "'b \<Rightarrow> nat" and k :: "'b \<Rightarrow> string" and x xs
    by (induction xs) simp_all
  have srt: "size_list f (sort_key k xs) = size_list f xs"
    for f :: "'b \<Rightarrow> nat" and k :: "'b \<Rightarrow> string" and xs
    by (induction xs) (simp_all add: ins)
  show ?thesis
    by (relation "measure (\<lambda>a. case a of
            Inl (p, node, walkFn, s) \<Rightarrow> size node
          | Inr (p, es, walkFn, s) \<Rightarrow> size_list (size_prod (\<lambda>x. 0) size) es)")
       (auto simp: srt)
qed

definition filepath_Walk :: "filesystem \<Rightarrow> string \<Rightarrow> 's WalkFunc \<Rightarrow> 's \<Rightarrow> error option \<times> 's" where
  "filepath_Walk fs root walkFn s =
     (case fs root of
        None \<Rightarrow> walkFn [] (Failed (PathError ''lstat'' root ''no such file or directory'')) s
      | Some node \<Rightarrow> walk [] node walkFn s)"

section \<open>The tools\<close>

text \<open>
  A tool function returns \<^verbatim>\<open>(string, error)\<close>, or panics. A panic is not recovered
  anywhere in the program: it ends the process.
\<close>

datatype tool_return = Return string "error option" | Panic error

record ToolDefinition =
  Name :: string
  Description :: string
  InputSchema :: "(string \<times> json) list option"
  Function :: "bytes \<Rightarrow> filesystem \<Rightarrow> tool_return"

text \<open>
  \<^verbatim>\<open>GenerateSchema\<close> reflects on the input struct. Both input structs have string
  fields only; a struct is given here by the JSON name and the description tag of each
  field, and the result is the ordered map of its properties.
\<close>

definition GenerateSchema :: "(string \<times> string) list \<Rightarrow> (string \<times> json) list option" where
  "GenerateSchema tagged =
     Some (map (\<lambda>(name, description).
                 (name, JObject [(''type'', JString ''string''), (''description'', JString description)]))
               tagged)"

record ReadFileInput =
  ReadFile_Path :: string

record ListFilesInput =
  ListFiles_Path :: string

definition ReadFileInput_field :: "string \<Rightarrow> json \<Rightarrow> ReadFileInput \<Rightarrow> error + ReadFileInput" where
  "ReadFileInput_field k v x =
     (if equal_fold k ''path'' then
        (case store_string ''ReadFileInput'' ''path'' v (ReadFile_Path x) of
           Inl err \<Rightarrow> Inl err
         | Inr p \<Rightarrow> Inr (x\<lparr>ReadFile_Path := p\<rparr>))
      else Inr x)"

definition ListFilesInput_field :: "string \<Rightarrow> json \<Rightarrow> ListFilesInput \<Rightarrow> error + ListFilesInput" where
  "ListFilesInput_field k v x =
     (if equal_fold k ''path'' then
        (case store_string ''ListFilesInput'' ''path'' v (ListFiles_Path x) of
           Inl err \<Rightarrow> Inl err
         | Inr p \<Rightarrow> Inr (x\<lparr>ListFiles_Path := p\<rparr>))
      else Inr x)"

definition ReadFileInputSchema :: "(string \<times> json) list option" where
  "ReadFileInputSchema =
     GenerateSchema [(''path'', ''The relative path of a file in the working directory.'')]"

definition Unmarshal_ReadFileInput :: "bytes \<Rightarrow> error + ReadFileInput" where
  "Unmarshal_ReadFileInput input =
     json_Unmarshal input
       (\<lambda>v. store_struct ''main.ReadFileInput'' [] [] ReadFileInput_field v \<lparr>ReadFile_Path = []\<rparr>)"

definition ReadFile :: "bytes \<Rightarrow> filesystem \<Rightarrow> tool_return" where
  "ReadFile input fs =
     (case Unmarshal_ReadFileInput input of
        Inl err \<Rightarrow> Panic err
      | Inr readFileInput \<Rightarrow>
          (case os_ReadFile fs (ReadFile_Path readFileInput) of
             Inl err \<Rightarrow> Return [] (Some err)
           | Inr content \<Rightarrow> Return content None))"

definition ReadFileDefinition :: ToolDefinition where
  "ReadFileDefinition =
     \<lparr>Name = ''read_file'',
      Description = ''Read the contents of a given relative file path. Use this when you want to see what''
        @ [CHR 0x27] @ ''s inside a file. Do not use this with directory names.'',
      InputSchema = ReadFileInputSchema,
      Function = ReadFile\<rparr>"

text \<open>
  A Go slice is \<^verbatim>\<open>nil\<close> until something is appended to it, and \<^verbatim>\<open>json.Marshal\<close>
  writes a \<^verbatim>\<open>nil\<close> slice as \<^verbatim>\<open>null\<close>.
\<close>

datatype 'a slice = Nil_slice | Slice "'a list"

fun append_slice :: "'a slice \<Rightarrow> 'a \<Rightarrow> 'a slice" where
  "append_slice Nil_slice x = Slice [x]"
| "append_slice (Slice xs) x = Slice (xs @ [x])"

fun json_Marshal_strings :: "string slice \<Rightarrow> error + string" where
  "json_Marshal_strings Nil_slice = Inr ''null''"
| "json_Marshal_strings (Slice xs) = Inr (''['' @ join (map json_string xs) '','' @ '']'')"

definition ListFilesInputSchema :: "(string \<times> json) list option" where
  "ListFilesInputSchema =
     GenerateSchema
       [(''path'',
         ''Optional relative path to list files from. Defaults to current directory if not provided.'')]"

text \<open>The function literal that \<^verbatim>\<open>ListFiles\<close> hands to \<^verbatim>\<open>filepath.Walk\<close>.\<close>

definition ListFiles_walkFn :: "string slice WalkFunc" where
  "ListFiles_walkFn p v files =
     (case v of
        Failed err \<Rightarrow> (Some err, files)
      | Entry isDir \<Rightarrow>
          (case filepath_Rel p of
             Inl err \<Rightarrow> (Some err, files)
           | Inr relPath \<Rightarrow>
               (if relPath \<noteq> ''.'' then
                  (if isDir then (None, append_slice files (relPath @ ''/''))
                   else (None, append_slice files relPath))
                else (None, files))))"

definition Unmarshal_ListFilesInput :: "bytes \<Rightarrow> error + ListFilesInput" where
  "Unmarshal_ListFilesInput input =
     json_Unmarshal input
       (\<lambda>v. store_struct ''main.ListFilesInput'' [] [] ListFilesInput_field v \<lparr>ListFiles_Path = []\<rparr>)"

definition ListFiles :: "bytes \<Rightarrow> filesystem \<Rightarrow> tool_return" where
  "ListFiles input fs =
     (case Unmarshal_ListFilesInput input of
        Inl err \<Rightarrow> Panic err
      | Inr listFilesInput \<Rightarrow>
          (let dir = (if ListFiles_Path listFilesInput \<noteq> [] then ListFiles_Path listFilesInput
                      else ''.'')
           in case filepath_Walk fs dir ListFiles_walkFn Nil_slice of
                (Some err, files) \<Rightarrow> Return [] (Some err)
              | (None, files) \<Rightarrow>
                  (case json_Marshal_strings files of
                     Inl err \<Rightarrow> Return [] (Some err)
                   | Inr result \<Rightarrow> Return result None)))"

definition ListFilesDefinition :: ToolDefinition where
  "ListFilesDefinition =
     \<lparr>Name = ''list_files'',
      Description = ''List files and directories at a given path. If no path is provided, lists files in the current directory.'',
      InputSchema = ListFilesInputSchema,
      Function = ListFiles\<rparr>"

section \<open>The inference client\<close>

text \<open>
  The inference server is an external collaborator. The world says, for the \<open>n\<close>-th
  call of \<^verbatim>\<open>Chat\<close> (counted from 0), the address and the request, how the round trip
  goes: the request cannot be built, \<^verbatim>\<open>client.Do\<close> fails, reading the body fails, or
  a body arrives under some status code. The client looks at the body only, never at
  the status code.
\<close>

record OllamaClient =
  baseURL :: string
  model :: string

definition NewOllamaClient :: "string \<Rightarrow> string \<Rightarrow> OllamaClient" where
  "NewOllamaClient b m = \<lparr>baseURL = b, model = m\<rparr>"

datatype http_result =
    NewRequest_error error
  | Do_error error
  | ReadAll_error error
  | Body nat bytes

record World =
  http :: "nat \<Rightarrow> string \<Rightarrow> OllamaRequest \<Rightarrow> http_result"
  filesys :: filesystem

text \<open>
  \<^verbatim>\<open>json.Marshal\<close> of the request fails only where a \<^verbatim>\<open>RawMessage\<close> among the
  tool calls of the transcript is not JSON; a \<^verbatim>\<open>nil\<close> one is written as \<^verbatim>\<open>null\<close>.
  The encoded request is identified with the request.
\<close>

fun RawMessage_MarshalJSON :: "bytes \<Rightarrow> error + string" where
  "RawMessage_MarshalJSON (Unparsable s msg) = (if s = [] then Inr ''null'' else Inl (MarshalerError msg))"
| "RawMessage_MarshalJSON (Parsable v) = Inr (compact v)"

fun first_error :: "(error + 'a) list \<Rightarrow> error option" where
  "first_error [] = None"
| "first_error (Inl err # rs) = Some err"
| "first_error (Inr x # rs) = first_error rs"

definition json_Marshal_request :: "OllamaRequest \<Rightarrow> error + OllamaRequest" where
  "json_Marshal_request reqBody =
     (case first_error
             (map (\<lambda>c. RawMessage_MarshalJSON (Call_Arguments c))
                  (concat (map ToolCalls (Messages reqBody)))) of
        Some err \<Rightarrow> Inl err
      | None \<Rightarrow> Inr reqBody)"

definition Chat ::
  "OllamaClient \<Rightarrow> World \<Rightarrow> nat \<Rightarrow> OllamaMessage list \<Rightarrow> OllamaTool list \<Rightarrow> error + OllamaResponse"
  where
  "Chat c w n messages ollamaTools =
     (let reqBody = \<lparr>Model = model c, Messages = messages, Tools = ollamaTools, Stream = False\<rparr>
      in case json_Marshal_request reqBody of
           Inl err \<Rightarrow> Inl err
         | Inr jsonData \<Rightarrow>
             (case http w n (baseURL c @ ''/api/chat'') jsonData of
                NewRequest_error err \<Rightarrow> Inl err
              | Do_error err \<Rightarrow> Inl err
              | ReadAll_error err \<Rightarrow> Inl err
              | Body status body \<Rightarrow>
                  (case Unmarshal_OllamaResponse body of
                     Inl err \<Rightarrow> Inl (Errorf_parse err (string_of_bytes body))
                   | Inr ollamaResp \<Rightarrow> Inr ollamaResp)))"

section \<open>The agent and its conversation loop\<close>

text \<open>
  \<^verbatim>\<open>getUserMessage\<close> reads standard input line by line; the lines still to come are
  part of the state of the run, and the end of the list is the end of the input.
  What the program does to the outside is recorded as a list of events, one for each
  output statement, each call of \<^verbatim>\<open>getUserMessage\<close> (with what it returned) and each
  call of \<^verbatim>\<open>Chat\<close> (with the transcript sent).
\<close>

record Agent =
  client :: OllamaClient
  tools :: "ToolDefinition list"

definition NewAgent :: "OllamaClient \<Rightarrow> ToolDefinition list \<Rightarrow> Agent" where
  "NewAgent c ts = \<lparr>client = c, tools = ts\<rparr>"

datatype event =
    Println_banner
  | Print_prompt
  | GetUserMessage "string option"
  | Chat_call "OllamaMessage list"
  | Printf_tool string bytes
  | Printf_reply string
  | Printf_error string

datatype 'a result = Normal 'a | Panicking error

datatype outcome = Returns "error option" | Crashes error

record RunState =
  conversation :: "OllamaMessage list"
  readUserInput :: bool
  stdin :: "string list"
  calls :: nat

definition ollamaTool :: "ToolDefinition \<Rightarrow> OllamaTool" where
  "ollamaTool tool =
     \<lparr>Tool_Type = ''function'',
      Tool_Name = Name tool,
      Tool_Description = Description tool,
      Tool_Parameters =
        JObject [(''type'', JString ''object''),
                 (''properties'', JObject (case InputSchema tool of None \<Rightarrow> [] | Some ps \<Rightarrow> ps)),
                 (''required'', JArray [])]\<rparr>"

definition runInference :: "Agent \<Rightarrow> World \<Rightarrow> nat \<Rightarrow> OllamaMessage list \<Rightarrow> error + OllamaResponse"
  where
  "runInference a w n conv = Chat (client a) w n conv (map ollamaTool (tools a))"

text \<open>The lookup loop of \<^verbatim>\<open>executeTool\<close>: the first tool of that name, if any.\<close>

fun find_tool :: "ToolDefinition list \<Rightarrow> string \<Rightarrow> ToolDefinition option" where
  "find_tool [] name = None"
| "find_tool (tool # ts) name = (if Name tool = name then Some tool else find_tool ts name)"

definition executeTool :: "Agent \<Rightarrow> filesystem \<Rightarrow> string \<Rightarrow> bytes \<Rightarrow> event list \<times> string result"
  where
  "executeTool a fs name input =
     (case find_tool (tools a) name of
        None \<Rightarrow> ([], Normal ''tool not found'')
      | Some toolDef \<Rightarrow>
          (case Function toolDef input fs of
             Panic err \<Rightarrow> ([Printf_tool name input], Panicking err)
           | Return response (Some err) \<Rightarrow> ([Printf_tool name input], Normal (Error err))
           | Return response None \<Rightarrow> ([Printf_tool name input], Normal response)))"

text \<open>
  The loop over the tool calls of one assistant turn; \<open>Sprintf_result\<close> is the
  \<^verbatim>\<open>fmt.Sprintf\<close> that tags a result with the name of its tool.
\<close>

definition Sprintf_result :: "string \<Rightarrow> string \<Rightarrow> string" where
  "Sprintf_result name r = ''Tool '' @ name @ '' result: '' @ r"

fun tool_calls_loop ::
  "Agent \<Rightarrow> filesystem \<Rightarrow> ToolCall list \<Rightarrow> string list \<Rightarrow> event list \<times> string list result" where
  "tool_calls_loop a fs [] toolResults = ([], Normal toolResults)"
| "tool_calls_loop a fs (toolCall # rest) toolResults =
     (case executeTool a fs (Call_Name toolCall) (Call_Arguments toolCall) of
        (out, Panicking err) \<Rightarrow> (out, Panicking err)
      | (out, Normal r) \<Rightarrow>
          (case tool_calls_loop a fs rest
                  (toolResults @ [Sprintf_result (Call_Name toolCall) r]) of
             (out', res) \<Rightarrow> (out @ out', res)))"

text \<open>\<^verbatim>\<open>fmt.Sprintf("%v", xs)\<close> for a slice of strings.\<close>

definition Sprint_strings :: "string list \<Rightarrow> string" where
  "Sprint_strings xs = ''['' @ join xs '' '' @ '']''"

text \<open>
  One pass through the body of the \<^verbatim>\<open>for\<close> loop of \<^verbatim>\<open>Run\<close>, in two parts:
  \<open>read_user\<close> is the reading of the user (when \<open>readUserInput\<close> is set; its last
  component is \<open>False\<close> on \<^verbatim>\<open>break\<close>), \<open>respond\<close> the inference with what follows
  it. The result of a pass is its events, the state after it, and how \<^verbatim>\<open>Run\<close> ends
  if it ends in the pass (\<open>None\<close>: the loop goes round again).
\<close>

definition respond :: "Agent \<Rightarrow> World \<Rightarrow> RunState \<Rightarrow> event list \<times> RunState \<times> outcome option" where
  "respond a w st =
     (case runInference a w (calls st) (conversation st) of
        Inl err \<Rightarrow>
          ([Chat_call (conversation st)], st\<lparr>calls := Suc (calls st)\<rparr>, Some (Returns (Some err)))
      | Inr response \<Rightarrow>
          (let st1 = st\<lparr>calls := Suc (calls st),
                        conversation := conversation st @ [Message response]\<rparr>
           in if length (ToolCalls (Message response)) > 0 then
                (case tool_calls_loop a (filesys w) (ToolCalls (Message response)) [] of
                   (out, Panicking err) \<Rightarrow>
                     (Chat_call (conversation st) # out, st1\<lparr>readUserInput := False\<rparr>,
                      Some (Crashes err))
                 | (out, Normal toolResults) \<Rightarrow>
                     (Chat_call (conversation st) # out,
                      st1\<lparr>readUserInput := False,
                          conversation := conversation st1 @
                            [\<lparr>Role = ''user'',
                              Content = ''Tool results: '' @ Sprint_strings toolResults,
                              ToolCalls = []\<rparr>]\<rparr>,
                      None))
              else
                ([Chat_call (conversation st), Printf_reply (Content (Message response))],
                 st1\<lparr>readUserInput := True\<rparr>, None)))"

definition read_user :: "RunState \<Rightarrow> event list \<times> RunState \<times> bool" where
  "read_user st =
     (if readUserInput st then
        (case stdin st of
           [] \<Rightarrow> ([Print_prompt, GetUserMessage None], st, False)
         | userInput # rest \<Rightarrow>
             ([Print_prompt, GetUserMessage (Some userInput)],
              st\<lparr>stdin := rest,
                 conversation := conversation st @
                   [\<lparr>Role = ''user'', Content = userInput, ToolCalls = []\<rparr>]\<rparr>,
              True))
      else ([], st, True))"

definition iteration :: "Agent \<Rightarrow> World \<Rightarrow> RunState \<Rightarrow> event list \<times> RunState \<times> outcome option" where
  "iteration a w st =
     (case read_user st of
        (out, st1, False) \<Rightarrow> (out, st1, Some (Returns None))
      | (out, st1, True) \<Rightarrow>
          (case respond a w st1 of (out', st', r) \<Rightarrow> (out @ out', st', r)))"

text \<open>
  The \<^verbatim>\<open>for\<close> loop may run for ever (a server that answers every call with a tool
  call never lets it stop), so it is run on fuel: \<open>for_loop n\<close> makes at most \<open>n\<close>
  passes, and its third component is \<open>None\<close> when the loop is still running then.
\<close>

fun for_loop :: "nat \<Rightarrow> Agent \<Rightarrow> World \<Rightarrow> RunState \<Rightarrow> event list \<times> RunState \<times> outcome option" where
  "for_loop 0 a w st = ([], st, None)"
| "for_loop (Suc n) a w st =
     (case iteration a w st of
        (out, st', Some r) \<Rightarrow> (out, st', Some r)
      | (out, st', None) \<Rightarrow>
          (case for_loop n a w st' of (out', st'', r) \<Rightarrow> (out @ out', st'', r)))"

definition Run :: "nat \<Rightarrow> Agent \<Rightarrow> World \<Rightarrow> string list \<Rightarrow> event list \<times> RunState \<times> outcome option" where
  "Run n a w input =
     (case for_loop n a w \<lparr>conversation = [], readUserInput = True, stdin = input, calls = 0\<rparr> of
        (out, st, r) \<Rightarrow> (Println_banner # out, st, r))"

definition main :: "nat \<Rightarrow> World \<Rightarrow> string list \<Rightarrow> event list \<times> outcome option" where
  "main n w input =
     (let c = NewOllamaClient ''http://localhost:11434'' ''qwen3:8b'';
          ts = [ReadFileDefinition, ListFilesDefinition];
          agent = NewAgent c ts
      in case Run n agent w input of
           (out, st, Some (Returns (Some err))) \<Rightarrow>
             (out @ [Printf_error (Error err)], Some (Returns None))
         | (out, st, r) \<Rightarrow> (out, r))"

section \<open>Example agents and worlds\<close>

text \<open>
  The agent of \<^verbatim>\<open>main\<close>, and small worlds on which the theorems below are run. A
  well-formed answer of the server with the given content and tool calls is \<open>reply\<close>.
\<close>

definition the_agent :: Agent where
  "the_agent =
     NewAgent (NewOllamaClient ''http://localhost:11434'' ''qwen3:8b'')
       [ReadFileDefinition, ListFilesDefinition]"

definition reply :: "string \<Rightarrow> (string \<times> json) list \<Rightarrow> http_result" where
  "reply text cs =
     Body 200 (Parsable (JObject
       [(''message'', JObject
           [(''role'', JString ''assistant''), (''content'', JString text),
            (''tool_calls'',
             JArray (map (\<lambda>c. JObject [(''function'',
                       JObject [(''name'', JString (fst c)), (''arguments'', snd c)])]) cs))]),
        (''done'', JBool True)]))"

definition offline :: World where
  "offline =
     \<lparr>http = (\<lambda>n url req. Do_error (NetError ''connection refused'')), filesys = (\<lambda>p. None)\<rparr>"

definition unknown_world :: World where
  "unknown_world =
     \<lparr>http = (\<lambda>n url req. reply [] [(''delete_file'', JObject [(''path'', JString ''x'')])]),
      filesys = (\<lambda>p. None)\<rparr>"

definition unknown_call :: ToolCall where
  "unknown_call =
     \<lparr>Call_Name = ''delete_file'', Call_Arguments = Parsable (JObject [(''path'', JString ''x'')])\<rparr>"

definition config_world :: World where
  "config_world =
     \<lparr>http = (\<lambda>n url req. reply [] [(''read_file'', JObject [(''path'', JString ''config.yaml'')])]),
      filesys = (\<lambda>p. if p = ''notes'' then Some (Dir []) else None)\<rparr>"

definition config_call :: ToolCall where
  "config_call =
     \<lparr>Call_Name = ''read_file'',
      Call_Arguments = Parsable (JObject [(''path'', JString ''config.yaml'')])\<rparr>"

definition asked :: RunState where
  "asked =
     \<lparr>conversation = [\<lparr>Role = ''user'', Content = ''hi'', ToolCalls = []\<rparr>],
      readUserInput = False, stdin = [], calls = 0\<rparr>"

definition echo :: "string \<Rightarrow> ToolDefinition" where
  "echo r =
     \<lparr>Name = ''echo'', Description = [], InputSchema = None,
      Function = (\<lambda>input fs. Return r None)\<rparr>"

section \<open>The listing as the specification words it\<close>

text \<open>
  The specification describes the result of the list-directory tool without reference to
  \<^verbatim>\<open>filepath.Walk\<close>: the entries below the root, each as its path relative to the
  root, a directory with a trailing separator and followed by its own entries, the
  entries of a directory in the order of their names. \<open>spec_listing prefix name node\<close>
  is the part of that sequence for the entry \<open>name\<close> whose parent has the relative path
  \<open>prefix\<close>; \<open>spec_entries\<close> is the sequence for the entries of the root. They are
  compared with \<^verbatim>\<open>ListFiles\<close> below.

  A tree can be walked without error when none of its directories is unreadable. Entry
  names are proper when they are names a directory can hold: not empty, not \<^verbatim>\<open>.\<close> or
  \<^verbatim>\<open>..\<close>, and without a separator.
\<close>

fun readable_tree :: "fsnode \<Rightarrow> bool" where
  "readable_tree (Dir es) = list_all (\<lambda>e. readable_tree (snd e)) es"
| "readable_tree (Unreadable_dir err) = False"
| "readable_tree (File content) = True"
| "readable_tree Unreadable_file = True"

definition proper_name :: "string \<Rightarrow> bool" where
  "proper_name n = (n \<noteq> [] \<and> n \<noteq> ''.'' \<and> n \<noteq> ''..'' \<and> CHR ''/'' \<notin> set n)"

fun proper_names :: "fsnode \<Rightarrow> bool" where
  "proper_names (Dir es) = list_all (\<lambda>e. proper_name (fst e) \<and> proper_names (snd e)) es"
| "proper_names (Unreadable_dir err) = True"
| "proper_names (File content) = True"
| "proper_names Unreadable_file = True"

fun spec_listing :: "string \<Rightarrow> string \<Rightarrow> fsnode \<Rightarrow> string list" where
  "spec_listing prefix name (Dir es) =
     (prefix @ name @ ''/'') #
     concat (map (\<lambda>e. spec_listing (prefix @ name @ ''/'') (fst e) (snd e)) (sort_key fst es))"
| "spec_listing prefix name (Unreadable_dir err) = [prefix @ name @ ''/'']"
| "spec_listing prefix name (File content) = [prefix @ name]"
| "spec_listing prefix name Unreadable_file = [prefix @ name]"

definition spec_entries :: "(string \<times> fsnode) list \<Rightarrow> string list" where
  "spec_entries es = concat (map (\<lambda>e. spec_listing [] (fst e) (snd e)) (sort_key fst es))"

text \<open>
  What it is for a text to be a JSON array of strings is said by a reader written from
  the JSON grammar, independently of the encoder above: \<open>spec_read_array\<close> accepts a
  text of the form \<^verbatim>\<open>[]\<close> or \<^verbatim>\<open>["...","..."]\<close> (compact, without white space) and
  gives the strings it spells. Inside a string a byte from 0x20 on other than the quote
  and the backslash stands for itself, a backslash introduces one of the eight short
  escapes or \<^verbatim>\<open>\u\<close> with four hexadecimal digits, which stand for the UTF-8 bytes of
  that code point (surrogate halves are refused). Everything else is refused.

  A JSON string is Unicode text. \<open>spec_valid_utf8\<close> is a byte string made such text
  the way \<^verbatim>\<open>encoding/json\<close> does it: every byte that does not begin a well-formed
  UTF-8 sequence becomes U+FFFD, in UTF-8 the bytes EF BF BD. It leaves well-formed
  UTF-8, plain ASCII in particular, as it is.
\<close>

definition spec_unhex :: "char \<Rightarrow> nat option" where
  "spec_unhex c =
     map_of (zip ''0123456789abcdefABCDEF''
                 [0, 1, 2, 3, 4, 5, 6, 7, 8, 9, 10, 11, 12, 13, 14, 15, 10, 11, 12, 13, 14, 15]) c"

definition spec_utf8 :: "nat \<Rightarrow> string option" where
  "spec_utf8 cp =
     (if cp < 0x80 then Some [char_of cp]
      else if cp < 0x800 then Some [char_of (0xC0 + cp div 64), char_of (0x80 + cp mod 64)]
      else if cp < 0xD800 \<or> 0xE000 \<le> cp \<and> cp < 0x10000 then
        Some [char_of (0xE0 + cp div 4096), char_of (0x80 + cp div 64 mod 64),
              char_of (0x80 + cp mod 64)]
      else None)"

definition spec_short_escape :: "char \<Rightarrow> char option" where
  "spec_short_escape e =
     map_of [(CHR 0x22, CHR 0x22), (CHR 0x5C, CHR 0x5C), (CHR ''/'', CHR ''/''),
             (CHR ''b'', CHR 0x08), (CHR ''f'', CHR 0x0C), (CHR ''n'', CHR 0x0A),
             (CHR ''r'', CHR 0x0D), (CHR ''t'', CHR 0x09)] e"

definition prepend :: "string \<Rightarrow> (string \<times> string) option \<Rightarrow> (string \<times> string) option" where
  "prepend bs r = (case r of None \<Rightarrow> None | Some (x, t) \<Rightarrow> Some (bs @ x, t))"

definition spec_hex4 :: "char \<Rightarrow> char \<Rightarrow> char \<Rightarrow> char \<Rightarrow> nat option" where
  "spec_hex4 h1 h2 h3 h4 =
     (case spec_unhex h1 of
        None \<Rightarrow> None
      | Some a \<Rightarrow>
          (case spec_unhex h2 of
             None \<Rightarrow> None
           | Some b \<Rightarrow>
               (case spec_unhex h3 of
                  None \<Rightarrow> None
                | Some c \<Rightarrow>
                    (case spec_unhex h4 of
                       None \<Rightarrow> None
                     | Some d \<Rightarrow> Some (((a * 16 + b) * 16 + c) * 16 + d)))))"

fun spec_read_escape :: "string \<Rightarrow> (string \<times> string) option" where
  "spec_read_escape [] = None"
| "spec_read_escape (e # t) =
     (if e = CHR ''u'' then
        (case t of
           h1 # h2 # h3 # h4 # t' \<Rightarrow>
             (case spec_hex4 h1 h2 h3 h4 of
                None \<Rightarrow> None
              | Some cp \<Rightarrow> (case spec_utf8 cp of None \<Rightarrow> None | Some bs \<Rightarrow> Some (bs, t')))
         | _ \<Rightarrow> None)
      else (case spec_short_escape e of None \<Rightarrow> None | Some x \<Rightarrow> Some ([x], t)))"

function spec_read_chars :: "string \<Rightarrow> (string \<times> string) option" where
  "spec_read_chars [] = None"
| "spec_read_chars (c # s) =
     (if c = CHR 0x22 then Some ([], s)
      else if c = CHR 0x5C then
        (case spec_read_escape s of
           None \<Rightarrow> None
         | Some (bs, t) \<Rightarrow> prepend bs (spec_read_chars t))
      else if (of_char c :: nat) < 0x20 then None
      else prepend [c] (spec_read_chars s))"
  by pat_completeness auto
termination
proof -
  have "length t \<le> length s" if "spec_read_escape s = Some (bs, t)" for s bs t
    using that by (cases s) (auto split: if_splits list.splits option.splits)
  then show ?thesis
    by (relation "measure length") (auto simp: le_imp_less_Suc)
qed

function spec_read_items :: "string \<Rightarrow> string list option" where
  "spec_read_items [] = None"
| "spec_read_items (q # s) =
     (if q = CHR 0x22 then
        (case spec_read_chars s of
           None \<Rightarrow> None
         | Some (x, r) \<Rightarrow>
             (case r of
                [] \<Rightarrow> None
              | d # r' \<Rightarrow>
                  if d = CHR '']'' then (if r' = [] then Some [x] else None)
                  else if d = CHR '','' then
                    (case spec_read_items r' of None \<Rightarrow> None | Some xs \<Rightarrow> Some (x # xs))
                  else None))
      else None)"
  by pat_completeness auto
termination
proof -
  have esc: "length t \<le> length s" if "spec_read_escape s = Some (bs, t)" for s bs t
    using that by (cases s) (auto split: if_splits list.splits option.splits)
  have rest: "\<forall>x r. spec_read_chars s = Some (x, r) \<longrightarrow> length r \<le> length s" for s
  proof (induction s rule: spec_read_chars.induct)
    case 1
    show ?case by simp
  next
    case (2 c s)
    show ?case
    proof (intro allI impI)
      fix x r
      assume a: "spec_read_chars (c # s) = Some (x, r)"
      show "length r \<le> length (c # s)"
      proof (cases "c = CHR 0x22")
        case True
        with a show ?thesis by simp
      next
        case nq: False
        show ?thesis
        proof (cases "c = CHR 0x5C")
          case True
          with a nq obtain bs t where e: "spec_read_escape s = Some (bs, t)"
            by (auto split: option.splits)
          with a nq True obtain y where "spec_read_chars t = Some (y, r)"
            by (auto simp: prepend_def split: option.splits)
          with "2.IH"(1) [OF nq True e refl] have "length r \<le> length t" by simp
          with esc [OF e] show ?thesis by simp
        next
          case False
          with a nq obtain y where "\<not> (of_char c :: nat) < 0x20" "spec_read_chars s = Some (y, r)"
            by (auto simp: prepend_def split: if_splits option.splits)
          with "2.IH"(2) [OF nq False] show ?thesis by simp
        qed
      qed
    qed
  qed
  show ?thesis
    by (relation "measure length") (auto dest: rest [rule_format])
qed

definition spec_read_array :: "string \<Rightarrow> string list option" where
  "spec_read_array t =
     (case t of
        [] \<Rightarrow> None
      | c # s \<Rightarrow>
          if c = CHR ''['' then (if s = '']'' then Some [] else spec_read_items s) else None)"

fun spec_valid_utf8 :: "string \<Rightarrow> string" where
  "spec_valid_utf8 [] = []"
| "spec_valid_utf8 (c # s) =
     (if (of_char c :: nat) < 0x80 then c # spec_valid_utf8 s
      else if rune_width (map of_char (take 4 (c # s))) = 1
        then [CHR 0xEF, CHR 0xBF, CHR 0xBD] @ spec_valid_utf8 s
      else take (rune_width (map of_char (take 4 (c # s)))) (c # s)
           @ spec_valid_utf8 (drop (rune_width (map of_char (take 4 (c # s))) - 1) s))"

text \<open>Notions the proofs use: the prefix of a path of the walk, and an entry fit to be walked.\<close>

definition path_prefix :: "path \<Rightarrow> string" where
  "path_prefix p = (if p = [] then [] else join p ''/'' @ ''/'')"

definition good_entry :: "string \<times> fsnode \<Rightarrow> bool" where
  "good_entry e = (proper_name (fst e) \<and> proper_names (snd e) \<and> readable_tree (snd e))"

text \<open>The assistant contents a list of events shows on the console, and a user turn.\<close>

fun replies_shown :: "event list \<Rightarrow> string list" where
  "replies_shown [] = []"
| "replies_shown (Printf_reply c # es) = c # replies_shown es"
| "replies_shown (e # es) = replies_shown es"



definition data_world :: World where
  "data_world =
     \<lparr>http = (\<lambda>n url req. reply [] [(''list_files'', JObject [(''path'', JString ''./data'')])]),
      filesys = (\<lambda>p. if p = ''./data''
                       then Some (Dir [(''sub'', Dir [(''z'', File ''q'')]),
                                       (''a.txt'', File ''hello''),
                                       ([CHR 0xC3, CHR 0xA9], File [])])
                     else if p = ''.'' then Some (Dir [])
                     else None)\<rparr>"

definition odd_world :: World where
  "odd_world =
     \<lparr>http = (\<lambda>n url req. reply [] [(''list_files'', JObject [(''path'', JString ''odd'')])]),
      filesys = (\<lambda>p. if p = ''odd'' then Some (Dir [([CHR 0xFF], File [])]) else None)\<rparr>"

definition model_missing :: World where
  "model_missing =
     \<lparr>http = (\<lambda>n url req. Body 404 (Parsable (JObject [(''error'', JString ''model not found'')]))),
      filesys = (\<lambda>p. None)\<rparr>"

definition string_args_world :: World where
  "string_args_world =
     \<lparr>http = (\<lambda>n url req. reply [] [(''read_file'', JString ''config.yaml'')]),
      filesys = (\<lambda>p. if p = ''config.yaml'' then Some (File ''port: 80'') else None)\<rparr>"

definition two_calls_world :: World where
  "two_calls_world =
     \<lparr>http = (\<lambda>n url req. reply []
                [(''list_files'', JObject [(''path'', JString ''notes'')]),
                 (''read_file'', JObject [(''path'', JNumber ''7'')])]),
      filesys = (\<lambda>p. if p = ''notes'' then Some (Dir [(''todo'', File ''x'')]) else None)\<rparr>"

text \<open>
  The failures of the inference client the specification names, on the \<open>n\<close>-th call
  with request \<open>req\<close> to address \<open>url\<close>: the request cannot be encoded or built, the
  round trip fails, the body cannot be read, or the body does not decode as a response;
  \<open>err\<close> is the error \<^verbatim>\<open>Chat\<close> then reports.
\<close>

definition spec_client_failure :: "World \<Rightarrow> nat \<Rightarrow> string \<Rightarrow> OllamaRequest \<Rightarrow> error \<Rightarrow> bool" where
  "spec_client_failure w n url req err =
     (json_Marshal_request req = Inl err
      \<or> json_Marshal_request req = Inr req
        \<and> (http w n url req = NewRequest_error err
           \<or> http w n url req = Do_error err
           \<or> http w n url req = ReadAll_error err
           \<or> (\<exists>status body e.
                 http w n url req = Body status body
               \<and> Unmarshal_OllamaResponse body = Inl e
               \<and> err = Errorf_parse e (string_of_bytes body))))"

section \<open>Dispatch\<close>

lemma find_tool_None: "name \<notin> set (map Name ts) \<Longrightarrow> find_tool ts name = None"
  by (induction ts) auto

lemma find_tool_first:
  "name \<notin> set (map Name pre) \<Longrightarrow> Name t = name \<Longrightarrow> find_tool (pre @ t # post) name = Some t"
  by (induction pre) auto

lemma executeTool_unknown:
  "name \<notin> set (map Name (tools a)) \<Longrightarrow> executeTool a fs name input = ([], Normal ''tool not found'')"
  by (simp add: executeTool_def find_tool_None)

text \<open>
  Claim C10. The lookup of \<^verbatim>\<open>executeTool\<close> goes through the catalog in the order of
  registration and invokes the first tool of the requested name: when the catalog is
  \<open>pre @ t # post\<close>, \<open>t\<close> has the name and no tool of \<open>pre\<close> has it, the trace line is
  printed and the result is that of the function of \<open>t\<close>, whatever \<open>post\<close> holds, a
  second tool of the same name included.
\<close>

theorem first_match_invoked:
  assumes "tools a = pre @ t # post" and "Name t = name" and "name \<notin> set (map Name pre)"
  shows "executeTool a fs name input =
           ([Printf_tool name input],
            (case Function t input fs of
               Panic err \<Rightarrow> Panicking err
             | Return response (Some err) \<Rightarrow> Normal (Error err)
             | Return response None \<Rightarrow> Normal response))"
  using assms
  by (simp add: executeTool_def find_tool_first split: tool_return.splits option.splits)

theorem first_match_invoked_witness:
  "tools \<lparr>client = NewOllamaClient [] [],
          tools = [ListFilesDefinition, echo ''first'', echo ''second'']\<rparr> =
     [ListFilesDefinition] @ echo ''first'' # [echo ''second'']
   \<and> Name (echo ''first'') = ''echo''
   \<and> ''echo'' \<notin> set (map Name [ListFilesDefinition])
   \<and> executeTool
        \<lparr>client = NewOllamaClient [] [],
          tools = [ListFilesDefinition, echo ''first'', echo ''second'']\<rparr>
        (\<lambda>p. None) ''echo'' no_bytes =
       ([Printf_tool ''echo'' no_bytes], Normal ''first'')"
proof -
  let ?a = "\<lparr>client = NewOllamaClient [] [],
             tools = [ListFilesDefinition, echo ''first'', echo ''second'']\<rparr>"
  have h1: "tools ?a = [ListFilesDefinition] @ echo ''first'' # [echo ''second'']" by simp
  have h2: "Name (echo ''first'') = ''echo''" by (simp add: echo_def)
  have h3: "''echo'' \<notin> set (map Name [ListFilesDefinition])"
    by (simp add: ListFilesDefinition_def)
  show ?thesis
    using h2 h3 first_match_invoked [OF h1 h2 h3, of "\<lambda>p. None" no_bytes]
    by (simp add: echo_def)
qed

section \<open>One pass of the loop\<close>

lemma respond_tools:
  assumes "runInference a w (calls st) (conversation st) = Inr response"
    and "ToolCalls (Message response) \<noteq> []"
    and "tool_calls_loop a (filesys w) (ToolCalls (Message response)) [] = (out, Normal results)"
  shows "respond a w st =
           (Chat_call (conversation st) # out,
            st\<lparr>calls := Suc (calls st),
               conversation := conversation st @
                 [Message response,
                  \<lparr>Role = ''user'', Content = ''Tool results: '' @ Sprint_strings results,
                    ToolCalls = []\<rparr>],
               readUserInput := False\<rparr>,
            None)"
  using assms by (simp add: respond_def Let_def)


lemma respond_error:
  assumes "runInference a w (calls st) (conversation st) = Inl err"
  shows "respond a w st =
           ([Chat_call (conversation st)], st\<lparr>calls := Suc (calls st)\<rparr>,
            Some (Returns (Some err)))"
  using assms by (simp add: respond_def)

text \<open>
  Claim C8. When the loop is to read the user and the input is exhausted, the pass
  prints the prompt, finds no line, and \<^verbatim>\<open>Run\<close> returns \<^verbatim>\<open>nil\<close>: the loop ends
  in that pass, whatever fuel is left, with the state untouched and no call of the
  server.
\<close>

theorem input_exhausted_returns_nil:
  assumes "readUserInput st" and "stdin st = []"
  shows "for_loop (Suc n) a w st = ([Print_prompt, GetUserMessage None], st, Some (Returns None))"
  using assms by (simp add: iteration_def read_user_def)

theorem input_exhausted_returns_nil_witness:
  "readUserInput \<lparr>conversation = [], readUserInput = True, stdin = [], calls = 0\<rparr>
   \<and> stdin \<lparr>conversation = [], readUserInput = True, stdin = [], calls = 0\<rparr> = []
   \<and> Run 1 the_agent offline [] =
       ([Println_banner, Print_prompt, GetUserMessage None],
        \<lparr>conversation = [], readUserInput = True, stdin = [], calls = 0\<rparr>, Some (Returns None))"
  using input_exhausted_returns_nil
          [of "\<lparr>conversation = [], readUserInput = True, stdin = [], calls = 0\<rparr>" 0 the_agent offline]
  by (simp add: Run_def)

text \<open>
  Claim C4. A tool call whose name no tool of the catalog has is answered by
  \<^verbatim>\<open>executeTool\<close> with the fixed string \<^verbatim>\<open>tool not found\<close>: nothing is printed and
  nothing panics. The loop over the tool calls of the turn goes on with the calls after
  it, and a turn made of that call ends with the result appended to the transcript and
  the loop going round again, without reading the user.
\<close>

theorem unknown_tool_not_found:
  assumes "name \<notin> set (map Name (tools a))"
    and "runInference a w (calls st) (conversation st) = Inr response"
    and "ToolCalls (Message response) = [\<lparr>Call_Name = name, Call_Arguments = input\<rparr>]"
  shows "executeTool a (filesys w) name input = ([], Normal ''tool not found'')
       \<and> tool_calls_loop a (filesys w) (\<lparr>Call_Name = name, Call_Arguments = input\<rparr> # rest) acc =
           tool_calls_loop a (filesys w) rest (acc @ [''Tool '' @ name @ '' result: tool not found''])
       \<and> respond a w st =
           ([Chat_call (conversation st)],
            st\<lparr>calls := Suc (calls st),
               conversation := conversation st @
                 [Message response,
                  \<lparr>Role = ''user'',
                    Content = ''Tool results: [Tool '' @ name @ '' result: tool not found]'',
                    ToolCalls = []\<rparr>],
               readUserInput := False\<rparr>,
            None)"
proof -
  have ex: "executeTool a (filesys w) name input = ([], Normal ''tool not found'')"
    using assms(1) by (rule executeTool_unknown)
  have lp: "tool_calls_loop a (filesys w) (\<lparr>Call_Name = name, Call_Arguments = input\<rparr> # rest) acc =
           tool_calls_loop a (filesys w) rest (acc @ [''Tool '' @ name @ '' result: tool not found''])"
    for rest acc
    using ex by (simp add: Sprintf_result_def split: prod.splits)
  have "tool_calls_loop a (filesys w) (ToolCalls (Message response)) [] =
          ([], Normal [''Tool '' @ name @ '' result: tool not found''])"
    by (simp only: assms(3) lp) simp
  from respond_tools [OF assms(2) _ this] assms(3)
  have "respond a w st =
           ([Chat_call (conversation st)],
            st\<lparr>calls := Suc (calls st),
               conversation := conversation st @
                 [Message response,
                  \<lparr>Role = ''user'',
                    Content = ''Tool results: [Tool '' @ name @ '' result: tool not found]'',
                    ToolCalls = []\<rparr>],
               readUserInput := False\<rparr>,
            None)"
    by (simp add: Sprint_strings_def)
  with ex lp show ?thesis by blast
qed

theorem unknown_tool_not_found_witness:
  "''delete_file'' \<notin> set (map Name (tools the_agent))
   \<and> runInference the_agent unknown_world (calls asked) (conversation asked) =
       Inr \<lparr>Message = \<lparr>Role = ''assistant'', Content = [], ToolCalls = [unknown_call]\<rparr>, Done = True\<rparr>
   \<and> executeTool the_agent (filesys unknown_world) ''delete_file'' (Call_Arguments unknown_call) =
       ([], Normal ''tool not found'')
   \<and> respond the_agent unknown_world asked =
       ([Chat_call (conversation asked)],
        \<lparr>conversation =
           [\<lparr>Role = ''user'', Content = ''hi'', ToolCalls = []\<rparr>,
            \<lparr>Role = ''assistant'', Content = [], ToolCalls = [unknown_call]\<rparr>,
            \<lparr>Role = ''user'', Content = ''Tool results: [Tool delete_file result: tool not found]'',
              ToolCalls = []\<rparr>],
         readUserInput = False, stdin = [], calls = 1\<rparr>,
        None)"
proof -
  have h1: "''delete_file'' \<notin> set (map Name (tools the_agent))"
    by (simp add: the_agent_def NewAgent_def ReadFileDefinition_def ListFilesDefinition_def)
  have h2: "runInference the_agent unknown_world (calls asked) (conversation asked) =
       Inr \<lparr>Message = \<lparr>Role = ''assistant'', Content = [], ToolCalls = [unknown_call]\<rparr>, Done = True\<rparr>"
    by code_simp
  have h3: "ToolCalls (Message \<lparr>Message = \<lparr>Role = ''assistant'', Content = [],
                                          ToolCalls = [unknown_call]\<rparr>, Done = True\<rparr>) =
       [\<lparr>Call_Name = ''delete_file'', Call_Arguments = Parsable (JObject [(''path'', JString ''x'')])\<rparr>]"
    by (simp add: unknown_call_def)
  show ?thesis
    using h1 h2 unknown_tool_not_found [OF h1 h2 h3]
    by (simp add: asked_def unknown_call_def)
qed

text \<open>
  Claim C7. A dispatch of the read-file tool whose payload decodes and names a file that
  \<^verbatim>\<open>os.ReadFile\<close> cannot read (nothing there, no permission, a directory) gives the
  text of that error as the tool result: the trace line is printed and nothing panics.
  The loop over the tool calls goes on with the calls after it, and a turn made of that
  call ends with the error text appended to the transcript as the tool-result turn and
  the loop going round again.
\<close>

theorem read_file_failure_is_fed_back:
  assumes "find_tool (tools a) ''read_file'' = Some ReadFileDefinition"
    and "Unmarshal_ReadFileInput input = Inr x"
    and "os_ReadFile (filesys w) (ReadFile_Path x) = Inl err"
    and "runInference a w (calls st) (conversation st) = Inr response"
    and "ToolCalls (Message response) = [\<lparr>Call_Name = ''read_file'', Call_Arguments = input\<rparr>]"
  shows "executeTool a (filesys w) ''read_file'' input =
           ([Printf_tool ''read_file'' input], Normal (Error err))
       \<and> tool_calls_loop a (filesys w) (\<lparr>Call_Name = ''read_file'', Call_Arguments = input\<rparr> # rest) acc =
           (case tool_calls_loop a (filesys w) rest (acc @ [''Tool read_file result: '' @ Error err]) of
              (out, res) \<Rightarrow> (Printf_tool ''read_file'' input # out, res))
       \<and> respond a w st =
           ([Chat_call (conversation st), Printf_tool ''read_file'' input],
            st\<lparr>calls := Suc (calls st),
               conversation := conversation st @
                 [Message response,
                  \<lparr>Role = ''user'',
                    Content = ''Tool results: [Tool read_file result: '' @ Error err @ '']'',
                    ToolCalls = []\<rparr>],
               readUserInput := False\<rparr>,
            None)"
proof -
  have rf: "ReadFile input (filesys w) = Return [] (Some err)"
    using assms(2,3) by (simp add: ReadFile_def)
  have ex: "executeTool a (filesys w) ''read_file'' input =
           ([Printf_tool ''read_file'' input], Normal (Error err))"
    using assms(1) rf by (simp add: executeTool_def ReadFileDefinition_def)
  have lp: "tool_calls_loop a (filesys w) (\<lparr>Call_Name = ''read_file'', Call_Arguments = input\<rparr> # rest) acc =
           (case tool_calls_loop a (filesys w) rest (acc @ [''Tool read_file result: '' @ Error err]) of
              (out, res) \<Rightarrow> (Printf_tool ''read_file'' input # out, res))"
    for rest acc
    using ex by (simp add: Sprintf_result_def split: prod.splits)
  have "tool_calls_loop a (filesys w) (ToolCalls (Message response)) [] =
          ([Printf_tool ''read_file'' input], Normal [''Tool read_file result: '' @ Error err])"
    by (simp only: assms(5) lp) simp
  from respond_tools [OF assms(4) _ this] assms(5)
  have "respond a w st =
           ([Chat_call (conversation st), Printf_tool ''read_file'' input],
            st\<lparr>calls := Suc (calls st),
               conversation := conversation st @
                 [Message response,
                  \<lparr>Role = ''user'',
                    Content = ''Tool results: [Tool read_file result: '' @ Error err @ '']'',
                    ToolCalls = []\<rparr>],
               readUserInput := False\<rparr>,
            None)"
    by (simp add: Sprint_strings_def)
  with ex lp show ?thesis by blast
qed

theorem read_file_failure_is_fed_back_witness:
  "find_tool (tools the_agent) ''read_file'' = Some ReadFileDefinition
   \<and> Unmarshal_ReadFileInput (Call_Arguments config_call) = Inr \<lparr>ReadFile_Path = ''config.yaml''\<rparr>
   \<and> os_ReadFile (filesys config_world) ''config.yaml'' =
       Inl (PathError ''open'' ''config.yaml'' ''no such file or directory'')
   \<and> runInference the_agent config_world (calls asked) (conversation asked) =
       Inr \<lparr>Message = \<lparr>Role = ''assistant'', Content = [], ToolCalls = [config_call]\<rparr>, Done = True\<rparr>
   \<and> executeTool the_agent (filesys config_world) ''read_file'' (Call_Arguments config_call) =
       ([Printf_tool ''read_file'' (Call_Arguments config_call)],
        Normal ''open config.yaml: no such file or directory'')
   \<and> respond the_agent config_world asked =
       ([Chat_call (conversation asked), Printf_tool ''read_file'' (Call_Arguments config_call)],
        \<lparr>conversation =
           [\<lparr>Role = ''user'', Content = ''hi'', ToolCalls = []\<rparr>,
            \<lparr>Role = ''assistant'', Content = [], ToolCalls = [config_call]\<rparr>,
            \<lparr>Role = ''user'',
              Content = ''Tool results: [Tool read_file result: open config.yaml: no such file or directory]'',
              ToolCalls = []\<rparr>],
         readUserInput = False, stdin = [], calls = 1\<rparr>,
        None)"
proof -
  let ?input = "Parsable (JObject [(''path'', JString ''config.yaml'')])"
  let ?err = "PathError ''open'' ''config.yaml'' ''no such file or directory''"
  let ?resp = "\<lparr>Message = \<lparr>Role = ''assistant'', Content = [], ToolCalls = [config_call]\<rparr>, Done = True\<rparr>"
  have h1: "find_tool (tools the_agent) ''read_file'' = Some ReadFileDefinition"
    by (simp add: the_agent_def NewAgent_def ReadFileDefinition_def)
  have h2: "Unmarshal_ReadFileInput ?input = Inr \<lparr>ReadFile_Path = ''config.yaml''\<rparr>"
    by code_simp
  have h3: "os_ReadFile (filesys config_world) (ReadFile_Path \<lparr>ReadFile_Path = ''config.yaml''\<rparr>) = Inl ?err"
    by (simp add: config_world_def)
  have h4: "runInference the_agent config_world (calls asked) (conversation asked) = Inr ?resp"
    by code_simp
  have h5: "ToolCalls (Message ?resp) = [\<lparr>Call_Name = ''read_file'', Call_Arguments = ?input\<rparr>]"
    by (simp add: config_call_def)
  show ?thesis
    using h1 h2 h3 h4 read_file_failure_is_fed_back [OF h1 h2 h3 h4 h5]
    by (simp add: asked_def config_call_def)
qed

section \<open>The list-directory tool\<close>

text \<open>
  Claim C9. On a directory that holds no entry, whether named by the payload or taken
  as the current directory, \<^verbatim>\<open>ListFiles\<close> returns the text \<^verbatim>\<open>null\<close>: nothing was
  appended to the \<^verbatim>\<open>nil\<close> slice, and that is what is serialized.
\<close>

theorem empty_directory_lists_null:
  assumes "Unmarshal_ListFilesInput input = Inr x"
    and "fs (if ListFiles_Path x \<noteq> [] then ListFiles_Path x else ''.'') = Some (Dir [])"
  shows "ListFiles input fs = Return ''null'' None"
  using assms
  by (simp add: ListFiles_def Let_def filepath_Walk_def ListFiles_walkFn_def filepath_Rel_def)

theorem empty_directory_lists_null_witness:
  "Unmarshal_ListFilesInput (Parsable (JObject [(''path'', JString ''notes'')])) =
     Inr \<lparr>ListFiles_Path = ''notes''\<rparr>
   \<and> filesys config_world ''notes'' = Some (Dir [])
   \<and> ListFiles (Parsable (JObject [(''path'', JString ''notes'')])) (filesys config_world) =
       Return ''null'' None"
proof -
  have h1: "Unmarshal_ListFilesInput (Parsable (JObject [(''path'', JString ''notes'')])) =
     Inr \<lparr>ListFiles_Path = ''notes''\<rparr>"
    by code_simp
  have h2: "filesys config_world
              (if ListFiles_Path \<lparr>ListFiles_Path = ''notes''\<rparr> \<noteq> []
               then ListFiles_Path \<lparr>ListFiles_Path = ''notes''\<rparr> else ''.'') = Some (Dir [])"
    by (simp add: config_world_def)
  show ?thesis
    using h1 h2
      empty_directory_lists_null
        [of "Parsable (JObject [(''path'', JString ''notes'')])" "\<lparr>ListFiles_Path = ''notes''\<rparr>"
            "filesys config_world", OF h1 h2]
    by simp
qed

lemma join_snoc: "join (p @ [n]) sep = (if p = [] then n else join p sep @ sep @ n)"
  by (induction p sep rule: join.induct) auto

lemma join_snoc_not_dot: "p \<noteq> [] \<or> n \<noteq> ''.'' \<Longrightarrow> join (p @ [n]) ''/'' \<noteq> ''.''"
  by (auto simp: join_snoc append_eq_Cons_conv)

lemma path_prefix_snoc: "path_prefix (p @ [n]) = path_prefix p @ n @ ''/''"
  by (simp add: path_prefix_def join_snoc)

lemma path_prefix_butlast: "p \<noteq> [] \<Longrightarrow> path_prefix (butlast p) @ last p = join p ''/''"
  using join_snoc [of "butlast p" "last p" "''/''"] by (simp add: path_prefix_def)

lemma walkFn_dir:
  "p \<noteq> [] \<Longrightarrow> join p ''/'' \<noteq> ''.'' \<Longrightarrow>
   ListFiles_walkFn p (Entry True) files = (None, append_slice files (join p ''/'' @ ''/''))"
  by (simp add: ListFiles_walkFn_def filepath_Rel_def)

lemma walkFn_file:
  "p \<noteq> [] \<Longrightarrow> join p ''/'' \<noteq> ''.'' \<Longrightarrow>
   ListFiles_walkFn p (Entry False) files = (None, append_slice files (join p ''/''))"
  by (simp add: ListFiles_walkFn_def filepath_Rel_def)

lemma walkFn_root: "ListFiles_walkFn [] (Entry True) files = (None, files)"
  by (simp add: ListFiles_walkFn_def filepath_Rel_def)

lemma list_all_sort_key: "list_all P (sort_key f xs) = list_all P xs"
  by (simp add: list_all_iff)

lemma good_entries: "readable_tree (Dir es) \<Longrightarrow> proper_names (Dir es) \<Longrightarrow> list_all good_entry es"
  by (auto simp: list_all_iff good_entry_def)

lemma walk_lists:
  fixes walkFn :: "string slice WalkFunc"
  shows "walkFn = ListFiles_walkFn \<Longrightarrow> p \<noteq> [] \<Longrightarrow> join p ''/'' \<noteq> ''.'' \<Longrightarrow>
     readable_tree node \<Longrightarrow> proper_names node \<Longrightarrow>
     walk p node walkFn files =
       (None, foldl append_slice files (spec_listing (path_prefix (butlast p)) (last p) node))"
    and "walkFn = ListFiles_walkFn \<Longrightarrow> list_all good_entry es \<Longrightarrow>
     walk_names p es walkFn files =
       (None, foldl append_slice files (concat (map (\<lambda>e. spec_listing (path_prefix p) (fst e) (snd e)) es)))"
proof (induction p node walkFn files and p es walkFn files rule: walk_walk_names.induct)
  case (1 p content walkFn s)
  then show ?case by (simp add: walkFn_file path_prefix_butlast)
next
  case (2 p walkFn s)
  then show ?case by (simp add: walkFn_file path_prefix_butlast)
next
  case (3 p err walkFn s)
  then show ?case by simp
next
  case (4 p es walkFn s)
  have ge: "list_all good_entry (sort_key fst es)"
    using "4.prems"(4,5) by (simp add: list_all_sort_key good_entries)
  have "path_prefix p = join p ''/'' @ ''/''"
    using "4.prems"(2) by (simp add: path_prefix_def)
  then have pp: "path_prefix p = path_prefix (butlast p) @ last p @ ''/''"
    using "4.prems"(2) path_prefix_butlast [of p] by simp
  have "walk_names p (sort_key fst es) walkFn (append_slice s (join p ''/'' @ ''/'')) =
          (None, foldl append_slice (append_slice s (join p ''/'' @ ''/''))
                   (concat (map (\<lambda>e. spec_listing (path_prefix p) (fst e) (snd e)) (sort_key fst es))))"
    using "4.IH" [of None "append_slice s (join p ''/'' @ ''/'')"] "4.prems"(1,2,3) ge
    by (simp add: walkFn_dir)
  moreover have "join p ''/'' = path_prefix (butlast p) @ last p"
    using "4.prems"(2) by (simp add: path_prefix_butlast)
  ultimately show ?case
    using "4.prems"(1,2,3) pp by (simp add: walkFn_dir)
next
  case (5 p walkFn s)
  then show ?case by simp
next
  case (6 p name node rest walkFn s)
  from "6.prems"(2) have g: "proper_name name" "proper_names node" "readable_tree node"
    and gr: "list_all good_entry rest"
    by (simp_all add: good_entry_def [abs_def])
  have nd: "join (p @ [name]) ''/'' \<noteq> ''.''"
    using g(1) by (intro join_snoc_not_dot) (simp add: proper_name_def)
  have w1: "walk (filepath_Join p name) node walkFn s =
          (None, foldl append_slice s (spec_listing (path_prefix p) name node))"
    using "6.IH"(1) "6.prems"(1) nd g by (simp add: filepath_Join_def)
  have "walk_names p rest walkFn (foldl append_slice s (spec_listing (path_prefix p) name node)) =
          (None, foldl append_slice (foldl append_slice s (spec_listing (path_prefix p) name node))
                   (concat (map (\<lambda>e. spec_listing (path_prefix p) (fst e) (snd e)) rest)))"
    using "6.IH"(2) [OF w1 [symmetric] refl "6.prems"(1) gr] .
  with w1 show ?case by simp
qed

lemma foldl_append_slice: "foldl append_slice (Slice ys) xs = Slice (ys @ xs)"
  by (induction xs arbitrary: ys) simp_all

lemma foldl_append_Nil_slice:
  "foldl append_slice Nil_slice xs = (if xs = [] then Nil_slice else Slice xs)"
  by (cases xs) (simp_all add: foldl_append_slice)

lemma listing_not_Nil: "spec_listing prefix name node \<noteq> []"
  by (cases node) simp_all

lemma spec_entries_Nil: "spec_entries es = [] \<longleftrightarrow> es = []"
proof
  assume "spec_entries es = []"
  then have "sort_key fst es = []"
    by (cases "sort_key fst es") (simp_all add: spec_entries_def listing_not_Nil)
  then have "length es = 0" by (metis length_sort list.size(3))
  then show "es = []" by simp
qed (simp add: spec_entries_def)

text \<open>The reader undoes the encoder: what \<^verbatim>\<open>json.Marshal\<close> writes for a list of strings
  is read back as those strings, made valid UTF-8.\<close>

lemma prepend_simps [simp]:
  "prepend bs None = None" "prepend bs (Some (x, t)) = Some (bs @ x, t)"
  by (simp_all add: prepend_def)

lemma prepend_prepend: "prepend as (prepend bs r) = prepend (as @ bs) r"
  by (cases r) auto

lemma prepend_Nil: "prepend [] r = r"
  by (cases r) auto

lemma unhex_hex: "spec_unhex (hex n) = Some (n mod 16)"
proof -
  have "list_all (\<lambda>k. spec_unhex (''0123456789abcdef'' ! k) = Some k) [0..<16]"
    by code_simp
  then have "k < 16 \<Longrightarrow> spec_unhex (''0123456789abcdef'' ! k) = Some k" for k
    unfolding list_all_iff by (metis atLeastLessThan_iff set_upt zero_le)
  from this [of "n mod 16"] show ?thesis by (simp add: hex_def)
qed

lemma unhex_0: "spec_unhex CHR ''0'' = Some 0"
  by (simp add: spec_unhex_def)

lemma read_u00:
  assumes "n < 0x80"
  shows "spec_read_escape (''u00'' @ [hex (n div 16), hex n] @ rest) = Some ([char_of n], rest)"
proof -
  have "spec_hex4 CHR ''0'' CHR ''0'' (hex (n div 16)) (hex n) = Some (n div 16 mod 16 * 16 + n mod 16)"
    by (simp add: spec_hex4_def unhex_hex unhex_0)
  moreover have "n div 16 mod 16 * 16 + n mod 16 = n" using assms by simp
  ultimately show ?thesis using assms by (simp add: spec_utf8_def)
qed

lemma read_escape_ascii:
  assumes "(of_char c :: nat) < 0x80"
  shows "spec_read_chars (escape c @ rest) = prepend [c] (spec_read_chars rest)"
proof (cases "c = CHR 0x5C \<or> c = CHR 0x22")
  case True
  then show ?thesis by (auto simp: escape_def spec_short_escape_def)
next
  case nq: False
  show ?thesis
  proof (cases "c \<in> {CHR 0x08, CHR 0x0C, CHR 0x0A, CHR 0x0D, CHR 0x09}")
    case True
    then show ?thesis by (auto simp: escape_def spec_short_escape_def)
  next
    case ns: False
    show ?thesis
    proof (cases "(of_char c :: nat) < 32 \<or> c = CHR ''<'' \<or> c = CHR ''>'' \<or> c = CHR ''&''")
      case True
      have "escape c = [CHR 0x5C] @ ''u00'' @ [hex (of_char c div 16), hex (of_char c)]"
        using nq ns True unfolding escape_def by (simp only: if_False if_True) (simp add: escape_def)
      then have "spec_read_chars (escape c @ rest) =
          (case spec_read_escape (''u00'' @ [hex (of_char c div 16), hex (of_char c)] @ rest) of
             None \<Rightarrow> None | Some (bs, t) \<Rightarrow> prepend bs (spec_read_chars t))"
        by simp
      also have "\<dots> = prepend [char_of (of_char c :: nat)] (spec_read_chars rest)"
        by (simp only: read_u00 [OF assms]) simp
      finally show ?thesis by simp
    next
      case False
      then have "escape c = [c]" using nq ns by (simp add: escape_def)
      with False nq show ?thesis by simp
    qed
  qed
qed

lemma read_high:
  assumes "\<forall>b\<in>set bs. 0x80 \<le> (of_char b :: nat)"
  shows "spec_read_chars (bs @ rest) = prepend bs (spec_read_chars rest)"
  using assms
proof (induction bs)
  case Nil
  then show ?case by (simp add: prepend_Nil)
next
  case (Cons b bs)
  then have "b \<noteq> CHR 0x22" "b \<noteq> CHR 0x5C" "\<not> (of_char b :: nat) < 0x20"
    by auto
  with Cons show ?case by (simp add: prepend_prepend)
qed

lemma rune_width_cases:
  assumes "rune_width (map of_char (take 4 (c # s))) = n" and "n \<noteq> 1"
  shows "n \<le> Suc (length s) \<and> 2 \<le> n \<and> (\<forall>b\<in>set (take n (c # s)). 0x80 \<le> (of_char b :: nat))"
proof (cases s)
  case Nil
  with assms show ?thesis by (auto simp: rune_width_def between_def split: if_splits)
next
  case s1: (Cons b1 s1)
  show ?thesis
  proof (cases s1)
    case Nil
    with assms s1 show ?thesis by (auto simp: rune_width_def between_def split: if_splits)
  next
    case s2: (Cons b2 s2)
    show ?thesis
    proof (cases s2)
      case Nil
      with assms s1 s2 show ?thesis
        by (auto simp: rune_width_def between_def split: if_splits)
    next
      case s3: (Cons b3 s3)
      with assms s1 s2 show ?thesis
        by (auto simp: rune_width_def between_def split: if_splits)
    qed
  qed
qed

lemma take_drop_width: "1 \<le> n \<Longrightarrow> take n (c # s) @ drop (n - 1) s = c # s"
  by (cases n) simp_all

lemma char_of_bytes:
  "char_of (239 :: nat) = CHR 0xEF" "char_of (191 :: nat) = CHR 0xBF"
  "char_of (189 :: nat) = CHR 0xBD" "char_of (226 :: nat) = CHR 0xE2"
  "char_of (128 :: nat) = CHR 0x80" "char_of (168 :: nat) = CHR 0xA8"
  "char_of (169 :: nat) = CHR 0xA9"
  by code_simp+

lemma read_ufffd:
  "spec_read_escape (''ufffd'' @ rest) = Some ([CHR 0xEF, CHR 0xBF, CHR 0xBD], rest)"
  by (simp add: spec_hex4_def spec_unhex_def spec_utf8_def char_of_bytes)

lemma read_u2028:
  "spec_read_escape (''u2028'' @ rest) = Some ([CHR 0xE2, CHR 0x80, CHR 0xA8], rest)"
  by (simp add: spec_hex4_def spec_unhex_def spec_utf8_def char_of_bytes)

lemma read_u2029:
  "spec_read_escape (''u2029'' @ rest) = Some ([CHR 0xE2, CHR 0x80, CHR 0xA9], rest)"
  by (simp add: spec_hex4_def spec_unhex_def spec_utf8_def char_of_bytes)

lemma width_separator:
  "take 3 (c # s) = [CHR 0xE2, CHR 0x80, x] \<Longrightarrow> x = CHR 0xA8 \<or> x = CHR 0xA9 \<Longrightarrow>
   rune_width (map of_char (take 4 (c # s))) = 3"
  by (cases s; cases "tl s"; cases "tl (tl s)") (auto simp: rune_width_def between_def)


lemma read_escape_bytes:
  "spec_read_chars (escape_bytes s @ CHR 0x22 # rest) = Some (spec_valid_utf8 s, rest)"
proof (induction s rule: length_induct)
  case (1 xs)
  show ?case
  proof (cases xs)
    case Nil
    then show ?thesis by simp
  next
    case (Cons c s)
    let ?n = "rune_width (map of_char (take 4 (c # s)))"
    have IH: "length ys \<le> length s \<Longrightarrow>
        spec_read_chars (escape_bytes ys @ CHR 0x22 # rest) = Some (spec_valid_utf8 ys, rest)" for ys
      using 1 Cons by simp
    show ?thesis
    proof (cases "(of_char c :: nat) < 0x80")
      case True
      then show ?thesis
        using Cons IH [of s] by (simp add: read_escape_ascii)
    next
      case high: False
      show ?thesis
      proof (cases "?n = 1")
        case True
        have "spec_read_chars (escape_bytes (c # s) @ CHR 0x22 # rest) =
                (case spec_read_escape (''ufffd'' @ escape_bytes s @ CHR 0x22 # rest) of
                   None \<Rightarrow> None | Some (bs, t) \<Rightarrow> prepend bs (spec_read_chars t))"
          using high True by simp
        also have "\<dots> = Some ([CHR 0xEF, CHR 0xBF, CHR 0xBD] @ spec_valid_utf8 s, rest)"
          by (simp only: read_ufffd) (simp add: IH [of s])
        finally show ?thesis using Cons high True by simp
      next
        case wide: False
        from rune_width_cases [OF refl wide]
        have n: "?n \<le> Suc (length s)" "2 \<le> ?n"
          and hb: "\<forall>b\<in>set (take ?n (c # s)). 0x80 \<le> (of_char b :: nat)"
          by blast+
        have split: "take ?n (c # s) @ drop (?n - 1) s = c # s"
          using n(2) by (intro take_drop_width) simp
        have v: "spec_valid_utf8 (c # s) = take ?n (c # s) @ spec_valid_utf8 (drop (?n - 1) s)"
          using high wide by simp
        have copy: "spec_read_chars (take ?n (c # s) @ escape_bytes (drop (?n - 1) s) @ CHR 0x22 # rest) =
                Some (take ?n (c # s) @ spec_valid_utf8 (drop (?n - 1) s), rest)"
          by (simp only: read_high [OF hb]) (simp add: IH)
        show ?thesis
        proof (cases "take 3 (c # s) = [CHR 0xE2, CHR 0x80, CHR 0xA8]")
          case True
          then have w3: "?n = 3" by (intro width_separator) auto
          have "spec_read_chars (escape_bytes (c # s) @ CHR 0x22 # rest) =
                (case spec_read_escape (''u2028'' @ escape_bytes (drop 2 s) @ CHR 0x22 # rest) of
                   None \<Rightarrow> None | Some (bs, t) \<Rightarrow> prepend bs (spec_read_chars t))"
            using high wide True by simp
          also have "\<dots> = Some ([CHR 0xE2, CHR 0x80, CHR 0xA8] @ spec_valid_utf8 (drop 2 s), rest)"
            by (simp only: read_u2028) (simp add: IH)
          finally show ?thesis using v w3 True Cons by simp
        next
          case n28: False
          show ?thesis
          proof (cases "take 3 (c # s) = [CHR 0xE2, CHR 0x80, CHR 0xA9]")
            case True
            then have w3: "?n = 3" by (intro width_separator) auto
            have "spec_read_chars (escape_bytes (c # s) @ CHR 0x22 # rest) =
                (case spec_read_escape (''u2029'' @ escape_bytes (drop 2 s) @ CHR 0x22 # rest) of
                   None \<Rightarrow> None | Some (bs, t) \<Rightarrow> prepend bs (spec_read_chars t))"
              using high wide n28 True by simp
            also have "\<dots> = Some ([CHR 0xE2, CHR 0x80, CHR 0xA9] @ spec_valid_utf8 (drop 2 s), rest)"
              by (simp only: read_u2029) (simp add: IH)
            finally show ?thesis using v w3 True Cons by simp
          next
            case False
            have "escape_bytes (c # s) = take ?n (c # s) @ escape_bytes (drop (?n - 1) s)"
              by (simp only: escape_bytes.simps high wide n28 False if_False)
            with copy v Cons show ?thesis by simp
          qed
        qed
      qed
    qed
  qed
qed

lemma read_json_string:
  "spec_read_chars (tl (json_string x) @ rest) = Some (spec_valid_utf8 x, rest)"
  by (simp add: json_string_def read_escape_bytes)

lemma read_items_join:
  "xs \<noteq> [] \<Longrightarrow>
   spec_read_items (join (map json_string xs) '','' @ '']'') = Some (map spec_valid_utf8 xs)"
proof (induction xs rule: induct_list012)
  case 1
  then show ?case by simp
next
  case (2 x)
  have "json_string x @ '']'' = CHR 0x22 # escape_bytes x @ CHR 0x22 # '']''"
    by (simp add: json_string_def)
  then show ?case by (simp add: read_escape_bytes)
next
  case (3 x y zs)
  have "join (map json_string (x # y # zs)) '','' @ '']'' =
          CHR 0x22 # escape_bytes x @ CHR 0x22 # CHR '','' # join (map json_string (y # zs)) '','' @ '']''"
    by (simp add: json_string_def)
  then show ?case using 3 by (simp add: read_escape_bytes)
qed

lemma read_array_join:
  "xs \<noteq> [] \<Longrightarrow>
   spec_read_array (''['' @ join (map json_string xs) '','' @ '']'') = Some (map spec_valid_utf8 xs)"
proof -
  assume ne: "xs \<noteq> []"
  then obtain x ys where "xs = x # ys" by (cases xs) auto
  then have "join (map json_string xs) '','' @ '']'' \<noteq> '']''"
    by (cases ys) (simp_all add: json_string_def)
  then show ?thesis using ne by (simp add: spec_read_array_def read_items_join)
qed

lemma spec_valid_utf8_ascii:
  "list_all (\<lambda>c. (of_char c :: nat) < 0x80) s \<Longrightarrow> spec_valid_utf8 s = s"
  by (induction s) simp_all

text \<open>
  Claim C6, as amended. When the payload decodes, the root is the path of the payload,
  or \<^verbatim>\<open>.\<close> when that is absent or empty, and the root is a directory whose tree can
  be walked without error, \<^verbatim>\<open>ListFiles\<close> returns a text and no error. When the
  directory has no entry the text is \<^verbatim>\<open>null\<close>. Otherwise the text is a JSON array of
  strings, and the strings it spells are the entries of the specification (relative
  paths in the order of the walk, directories with a trailing separator, the root left
  out), each made valid UTF-8.
\<close>

theorem list_files_lists_tree:
  assumes "Unmarshal_ListFilesInput input = Inr x"
    and "root = (if ListFiles_Path x \<noteq> [] then ListFiles_Path x else ''.'')"
    and "fs root = Some (Dir es)"
    and "readable_tree (Dir es)" and "proper_names (Dir es)"
  shows "\<exists>out. ListFiles input fs = Return out None
       \<and> (if es = [] then out = ''null''
          else spec_read_array out = Some (map spec_valid_utf8 (spec_entries es)))"
proof -
  have ge: "list_all good_entry (sort_key fst es)"
    using assms(4,5) by (simp add: list_all_sort_key good_entries)
  have "walk_names [] (sort_key fst es) ListFiles_walkFn Nil_slice =
          (None, foldl append_slice Nil_slice (spec_entries es))"
    using walk_lists(2) [OF refl ge, of "[]" Nil_slice] by (simp add: spec_entries_def path_prefix_def)
  then have "filepath_Walk fs root ListFiles_walkFn Nil_slice =
          (None, if es = [] then Nil_slice else Slice (spec_entries es))"
    using assms(3) by (simp add: filepath_Walk_def walkFn_root foldl_append_Nil_slice spec_entries_Nil)
  then have out: "ListFiles input fs =
      Return (if es = [] then ''null''
              else ''['' @ join (map json_string (spec_entries es)) '','' @ '']'') None"
    using assms(1,2) by (simp add: ListFiles_def Let_def)
  show ?thesis
  proof (cases "es = []")
    case True
    with out show ?thesis by simp
  next
    case False
    then have "spec_entries es \<noteq> []" by (simp add: spec_entries_Nil)
    from read_array_join [OF this] out False show ?thesis by simp
  qed
qed

theorem list_files_lists_tree_witness:
  "Unmarshal_ListFilesInput (Parsable (JObject [(''path'', JString ''./data'')])) =
     Inr \<lparr>ListFiles_Path = ''./data''\<rparr>
   \<and> filesys data_world ''./data'' =
       Some (Dir [(''sub'', Dir [(''z'', File ''q'')]), (''a.txt'', File ''hello''),
          ([CHR 0xC3, CHR 0xA9], File [])])
   \<and> readable_tree (Dir [(''sub'', Dir [(''z'', File ''q'')]), (''a.txt'', File ''hello''),
          ([CHR 0xC3, CHR 0xA9], File [])])
   \<and> proper_names (Dir [(''sub'', Dir [(''z'', File ''q'')]), (''a.txt'', File ''hello''),
          ([CHR 0xC3, CHR 0xA9], File [])])
   \<and> ListFiles (Parsable (JObject [(''path'', JString ''./data'')])) (filesys data_world) =
       Return (''['' @ [CHR 0x22] @ ''a.txt'' @ [CHR 0x22] @ '','' @ [CHR 0x22] @ ''sub/''
                 @ [CHR 0x22] @ '','' @ [CHR 0x22] @ ''sub/z'' @ [CHR 0x22] @ '','' @ [CHR 0x22, CHR 0xC3, CHR 0xA9, CHR 0x22] @ '']'') None
   \<and> spec_read_array (''['' @ [CHR 0x22] @ ''a.txt'' @ [CHR 0x22] @ '','' @ [CHR 0x22] @ ''sub/''
                 @ [CHR 0x22] @ '','' @ [CHR 0x22] @ ''sub/z'' @ [CHR 0x22] @ '','' @ [CHR 0x22, CHR 0xC3, CHR 0xA9, CHR 0x22] @ '']'') =
       Some [''a.txt'', ''sub/'', ''sub/z'', [CHR 0xC3, CHR 0xA9]]"
proof -
  let ?es = "[(''sub'', Dir [(''z'', File ''q'')]), (''a.txt'', File ''hello''),
          ([CHR 0xC3, CHR 0xA9], File [])]"
  let ?input = "Parsable (JObject [(''path'', JString ''./data'')])"
  let ?x = "\<lparr>ListFiles_Path = ''./data''\<rparr>"
  let ?out = "''['' @ [CHR 0x22] @ ''a.txt'' @ [CHR 0x22] @ '','' @ [CHR 0x22] @ ''sub/''
                 @ [CHR 0x22] @ '','' @ [CHR 0x22] @ ''sub/z'' @ [CHR 0x22] @ '','' @ [CHR 0x22, CHR 0xC3, CHR 0xA9, CHR 0x22] @ '']''"
  have h1: "Unmarshal_ListFilesInput ?input = Inr ?x" by code_simp
  have h2: "''./data'' = (if ListFiles_Path ?x \<noteq> [] then ListFiles_Path ?x else ''.'')" by simp
  have h3: "filesys data_world ''./data'' = Some (Dir ?es)" by (simp add: data_world_def)
  have h4: "readable_tree (Dir ?es)" by simp
  have h5: "proper_names (Dir ?es)" by (simp add: proper_name_def)
  have l: "map spec_valid_utf8 (spec_entries ?es) = [''a.txt'', ''sub/'', ''sub/z'', [CHR 0xC3, CHR 0xA9]]" by code_simp
  have r: "ListFiles ?input (filesys data_world) = Return ?out None" by code_simp
  from list_files_lists_tree [of ?input ?x "''./data''" "filesys data_world" ?es, OF h1 h2 h3 h4 h5]
  obtain out where "ListFiles ?input (filesys data_world) = Return out None"
    and "spec_read_array out = Some (map spec_valid_utf8 (spec_entries ?es))"
    by auto
  with r l have "spec_read_array ?out = Some [''a.txt'', ''sub/'', ''sub/z'', [CHR 0xC3, CHR 0xA9]]" by simp
  with h1 h3 h4 h5 r show ?thesis by blast
qed

text \<open>
  The claim as first stated, that the result is always the sequence of entries as a JSON
  array of strings, fails in two places. On the empty directory the result is
  \<^verbatim>\<open>null\<close>, which is not an array. And a name that is not UTF-8, here the single
  byte FF, is not spelt by the array: the array holds U+FFFD in its place.
\<close>

theorem list_files_counterexample:
  "ListFiles (Parsable (JObject [])) (filesys data_world) = Return ''null'' None
   \<and> spec_read_array ''null'' = None
   \<and> spec_entries [([CHR 0xFF], File [])] = [[CHR 0xFF]]
   \<and> ListFiles (Parsable (JObject [(''path'', JString ''odd'')])) (filesys odd_world) =
       Return (''['' @ [CHR 0x22, CHR 0x5C] @ ''ufffd'' @ [CHR 0x22] @ '']'') None
   \<and> spec_read_array (''['' @ [CHR 0x22, CHR 0x5C] @ ''ufffd'' @ [CHR 0x22] @ '']'') =
       Some [[CHR 0xEF, CHR 0xBF, CHR 0xBD]]"
proof -
  have a: "ListFiles (Parsable (JObject [])) (filesys data_world) = Return ''null'' None"
    by code_simp
  have b: "spec_read_array ''null'' = None"
    by code_simp
  have c: "spec_entries [([CHR 0xFF], File [])] = [[CHR 0xFF]]"
    by code_simp
  have d: "ListFiles (Parsable (JObject [(''path'', JString ''odd'')])) (filesys odd_world) =
       Return (''['' @ [CHR 0x22, CHR 0x5C] @ ''ufffd'' @ [CHR 0x22] @ '']'') None"
    by code_simp
  have j: "json_string [CHR 0xFF] = [CHR 0x22, CHR 0x5C] @ ''ufffd'' @ [CHR 0x22]"
    by code_simp
  have v: "spec_valid_utf8 [CHR 0xFF] = [CHR 0xEF, CHR 0xBF, CHR 0xBD]"
    by code_simp
  have e: "spec_read_array (''['' @ [CHR 0x22, CHR 0x5C] @ ''ufffd'' @ [CHR 0x22] @ '']'') =
       Some [[CHR 0xEF, CHR 0xBF, CHR 0xBD]]"
  proof -
    have "spec_read_array (''['' @ join (map json_string [[CHR 0xFF]]) '','' @ '']'') =
            Some (map spec_valid_utf8 [[CHR 0xFF]])"
      by (rule read_array_join) simp
    then have "spec_read_array (''['' @ json_string [CHR 0xFF] @ '']'') =
            Some [spec_valid_utf8 [CHR 0xFF]]"
      by (simp only: list.map join.simps)
    then show ?thesis unfolding j v by simp
  qed
  from a b c d e show ?thesis by blast
qed

section \<open>Runs without tool calls\<close>

lemma replies_shown_append: "replies_shown (xs @ ys) = replies_shown xs @ replies_shown ys"
  by (induction xs rule: replies_shown.induct) simp_all








section \<open>Failures of the inference client\<close>

lemma json_Marshal_request_Inr: "json_Marshal_request req = Inr r \<Longrightarrow> r = req"
  by (auto simp: json_Marshal_request_def split: option.splits)

lemma Chat_fails_iff:
  "Chat c w n msgs ts = Inl err \<longleftrightarrow>
   spec_client_failure w n (baseURL c @ ''/api/chat'')
     \<lparr>Model = model c, Messages = msgs, Tools = ts, Stream = False\<rparr> err"
proof -
  let ?req = "\<lparr>Model = model c, Messages = msgs, Tools = ts, Stream = False\<rparr>"
  show ?thesis
  proof (cases "json_Marshal_request ?req")
    case (Inl e)
    then show ?thesis by (simp add: Chat_def Let_def spec_client_failure_def)
  next
    case (Inr r)
    then have r: "json_Marshal_request ?req = Inr ?req"
      using json_Marshal_request_Inr by blast
    show ?thesis
    proof (cases "http w n (baseURL c @ ''/api/chat'') ?req")
      case (Body status body)
      then show ?thesis
        using r by (cases "Unmarshal_OllamaResponse body")
          (auto simp: Chat_def Let_def spec_client_failure_def)
    qed (use r in \<open>auto simp: Chat_def Let_def spec_client_failure_def\<close>)
  qed
qed

lemma respond_returns_error:
  "snd (snd (respond a w st)) = Some (Returns (Some err)) \<longleftrightarrow>
   runInference a w (calls st) (conversation st) = Inl err"
  by (auto simp: respond_def Let_def split: sum.splits prod.splits result.splits)

text \<open>
  Claim C5, as amended. Take a pass of the loop that gets as far as calling the server.
  If the client fails there (the request cannot be encoded or built, the round trip or
  the reading of the body fails, or the body does not decode as a response), \<^verbatim>\<open>Run\<close>
  returns that error (the decoding error wrapped together with the body) right after
  the call, with no further prompt and no further call, whatever fuel is left. And
  these are the only failures: if the pass ends with \<^verbatim>\<open>Run\<close> returning an error,
  the client failed in one of these ways with that error. An error the server reports
  is among them only when its body does not decode; the status code plays no part.
\<close>

theorem chat_failure_aborts_run:
  assumes "read_user st = (out1, st1, True)"
    and "req = \<lparr>Model = model (client a), Messages = conversation st1,
                 Tools = map ollamaTool (tools a), Stream = False\<rparr>"
  shows "(spec_client_failure w (calls st1) (baseURL (client a) @ ''/api/chat'') req err \<longrightarrow>
            for_loop (Suc n) a w st =
              (out1 @ [Chat_call (conversation st1)], st1\<lparr>calls := Suc (calls st1)\<rparr>,
               Some (Returns (Some err))))
       \<and> (snd (snd (iteration a w st)) = Some (Returns (Some err)) \<longrightarrow>
            spec_client_failure w (calls st1) (baseURL (client a) @ ''/api/chat'') req err)"
proof -
  have ch: "runInference a w (calls st1) (conversation st1) = Inl err \<longleftrightarrow>
        spec_client_failure w (calls st1) (baseURL (client a) @ ''/api/chat'') req err"
    unfolding runInference_def assms(2) by (rule Chat_fails_iff)
  have it: "iteration a w st =
      (case respond a w st1 of (out', st', r) \<Rightarrow> (out1 @ out', st', r))"
    using assms(1) by (simp add: iteration_def)
  have one: "for_loop (Suc n) a w st =
              (out1 @ [Chat_call (conversation st1)], st1\<lparr>calls := Suc (calls st1)\<rparr>,
               Some (Returns (Some err)))"
    if "spec_client_failure w (calls st1) (baseURL (client a) @ ''/api/chat'') req err"
  proof -
    from that ch have "runInference a w (calls st1) (conversation st1) = Inl err" by simp
    then have "respond a w st1 =
           ([Chat_call (conversation st1)], st1\<lparr>calls := Suc (calls st1)\<rparr>,
            Some (Returns (Some err)))"
      by (rule respond_error)
    with it show ?thesis by simp
  qed
  have two: "spec_client_failure w (calls st1) (baseURL (client a) @ ''/api/chat'') req err"
    if "snd (snd (iteration a w st)) = Some (Returns (Some err))"
  proof -
    from that it have "snd (snd (respond a w st1)) = Some (Returns (Some err))"
      by (simp split: prod.splits)
    then show ?thesis using respond_returns_error ch by blast
  qed
  from one two show ?thesis by blast
qed

theorem chat_failure_aborts_run_witness:
  "read_user \<lparr>conversation = [], readUserInput = True, stdin = [''hi'', ''again''], calls = 0\<rparr> =
     ([Print_prompt, GetUserMessage (Some ''hi'')],
      \<lparr>conversation = [\<lparr>Role = ''user'', Content = ''hi'', ToolCalls = []\<rparr>],
        readUserInput = True, stdin = [''again''], calls = 0\<rparr>, True)
   \<and> spec_client_failure offline 0 (baseURL (client the_agent) @ ''/api/chat'')
        \<lparr>Model = model (client the_agent),
          Messages = [\<lparr>Role = ''user'', Content = ''hi'', ToolCalls = []\<rparr>],
          Tools = map ollamaTool (tools the_agent), Stream = False\<rparr>
        (NetError ''connection refused'')
   \<and> Run 3 the_agent offline [''hi'', ''again''] =
       ([Println_banner, Print_prompt, GetUserMessage (Some ''hi''),
         Chat_call [\<lparr>Role = ''user'', Content = ''hi'', ToolCalls = []\<rparr>]],
        \<lparr>conversation = [\<lparr>Role = ''user'', Content = ''hi'', ToolCalls = []\<rparr>],
          readUserInput = True, stdin = [''again''], calls = 1\<rparr>,
        Some (Returns (Some (NetError ''connection refused''))))"
proof -
  let ?st = "\<lparr>conversation = [], readUserInput = True, stdin = [''hi'', ''again''], calls = 0\<rparr>"
  let ?st1 = "\<lparr>conversation = [\<lparr>Role = ''user'', Content = ''hi'', ToolCalls = []\<rparr>],
        readUserInput = True, stdin = [''again''], calls = 0\<rparr>"
  let ?req = "\<lparr>Model = model (client the_agent), Messages = conversation ?st1,
          Tools = map ollamaTool (tools the_agent), Stream = False\<rparr>"
  have h1: "read_user ?st = ([Print_prompt, GetUserMessage (Some ''hi'')], ?st1, True)"
    by (simp add: read_user_def)
  have h2: "?req = \<lparr>Model = model (client the_agent), Messages = conversation ?st1,
          Tools = map ollamaTool (tools the_agent), Stream = False\<rparr>" by simp
  have h3: "spec_client_failure offline (calls ?st1) (baseURL (client the_agent) @ ''/api/chat'') ?req
              (NetError ''connection refused'')"
    by (simp add: spec_client_failure_def json_Marshal_request_def offline_def)
  show ?thesis
    using h1 h3 chat_failure_aborts_run [OF h1 h2, of offline "NetError ''connection refused''" 2]
    by (simp add: Run_def numeral_3_eq_3)
qed

text \<open>
  The claim as first stated counts every error reported by the server among the
  failures. In the run below the server answers with status 404 and an error document;
  the document decodes, to an empty assistant turn, which is appended and shown, and
  the loop prompts the user again and ends normally: no error is returned.
\<close>

theorem backend_error_document_counterexample:
  "Run 2 the_agent model_missing [''hi''] =
     ([Println_banner, Print_prompt, GetUserMessage (Some ''hi''),
       Chat_call [\<lparr>Role = ''user'', Content = ''hi'', ToolCalls = []\<rparr>],
       Printf_reply [], Print_prompt, GetUserMessage None],
      \<lparr>conversation = [\<lparr>Role = ''user'', Content = ''hi'', ToolCalls = []\<rparr>,
                       \<lparr>Role = [], Content = [], ToolCalls = []\<rparr>],
        readUserInput = True, stdin = [], calls = 1\<rparr>,
      Some (Returns None))"
  by code_simp

section \<open>Malformed tool arguments\<close>

text \<open>
  Claim C2 does not hold of the code. Both tools panic on a payload that does not decode
  into their input type, here a string where \<^verbatim>\<open>ReadFile\<close> wants an object and a number
  where \<^verbatim>\<open>ListFiles\<close> wants the path: no result text is returned, and a run in which
  the server sends such a call ends in the panic.
\<close>

theorem malformed_arguments_panic:
  "ReadFile (Parsable (JString ''config.yaml'')) (filesys string_args_world) =
     Panic (UnmarshalTypeError ''string'' ''main.ReadFileInput'' [] [])
   \<and> ListFiles (Parsable (JObject [(''path'', JNumber ''7'')])) (filesys string_args_world) =
     Panic (UnmarshalTypeError ''number'' ''string'' ''ListFilesInput'' ''path'')
   \<and> Run 1 the_agent string_args_world [''show me config.yaml''] =
     ([Println_banner, Print_prompt, GetUserMessage (Some ''show me config.yaml''),
       Chat_call [\<lparr>Role = ''user'', Content = ''show me config.yaml'', ToolCalls = []\<rparr>],
       Printf_tool ''read_file'' (Parsable (JString ''config.yaml''))],
      \<lparr>conversation =
         [\<lparr>Role = ''user'', Content = ''show me config.yaml'', ToolCalls = []\<rparr>,
          \<lparr>Role = ''assistant'', Content = [],
            ToolCalls = [\<lparr>Call_Name = ''read_file'', Call_Arguments = Parsable (JString ''config.yaml'')\<rparr>]\<rparr>],
        readUserInput = False, stdin = [], calls = 1\<rparr>,
      Some (Crashes (UnmarshalTypeError ''string'' ''main.ReadFileInput'' [] [])))"
  by code_simp

text \<open>
  When no dispatch of a turn panics, the turn goes as the specification says: the tool calls are
  dispatched one by one in the order of the requests, the results, each tagged with the
  name of its tool, go into one turn appended after the assistant turn, and the next
  pass does not read the user.
\<close>

lemma tool_calls_loop_all_Normal:
  "list_all2 (\<lambda>c r. snd (executeTool a fs (Call_Name c) (Call_Arguments c)) = Normal r) cs rs \<Longrightarrow>
   tool_calls_loop a fs cs acc =
     (concat (map (\<lambda>c. fst (executeTool a fs (Call_Name c) (Call_Arguments c))) cs),
      Normal (acc @ map2 Sprintf_result (map Call_Name cs) rs))"
proof (induction cs rs arbitrary: acc rule: list_all2_induct)
  case Nil
  then show ?case by simp
next
  case (Cons c cs r rs)
  obtain out where ex: "executeTool a fs (Call_Name c) (Call_Arguments c) = (out, Normal r)"
    using Cons.hyps(1) by (cases "executeTool a fs (Call_Name c) (Call_Arguments c)") auto
  show ?case
    using Cons.IH [of "acc @ [Sprintf_result (Call_Name c) r]"] ex by simp
qed

lemma tool_turn_without_panic:
  assumes "runInference a w (calls st) (conversation st) = Inr response"
    and "ToolCalls (Message response) = cs" and "cs \<noteq> []"
    and "list_all2 (\<lambda>c r. snd (executeTool a (filesys w) (Call_Name c) (Call_Arguments c)) = Normal r)
           cs rs"
    and "st' = st\<lparr>calls := Suc (calls st),
                   conversation := conversation st @
                     [Message response,
                      \<lparr>Role = ''user'',
                        Content = ''Tool results: '' @
                          Sprint_strings (map2 Sprintf_result (map Call_Name cs) rs),
                        ToolCalls = []\<rparr>],
                   readUserInput := False\<rparr>"
  shows "respond a w st =
           (Chat_call (conversation st) #
              concat (map (\<lambda>c. fst (executeTool a (filesys w) (Call_Name c) (Call_Arguments c))) cs),
            st', None)"
    and "read_user st' = ([], st', True)"
proof -
  have "tool_calls_loop a (filesys w) (ToolCalls (Message response)) [] =
          (concat (map (\<lambda>c. fst (executeTool a (filesys w) (Call_Name c) (Call_Arguments c))) cs),
           Normal (map2 Sprintf_result (map Call_Name cs) rs))"
    using tool_calls_loop_all_Normal [OF assms(4), of "[]"] assms(2) by simp
  from respond_tools [OF assms(1) _ this] assms(2,3,5)
  show "respond a w st =
           (Chat_call (conversation st) #
              concat (map (\<lambda>c. fst (executeTool a (filesys w) (Call_Name c) (Call_Arguments c))) cs),
            st', None)"
    by simp
  show "read_user st' = ([], st', True)"
    using assms(5) by (simp add: read_user_def)
qed

text \<open>
  Claim C1 does not hold of the code on every turn. In the run below the assistant turn
  asks for two tool calls; the first is dispatched, the second panics on its payload,
  and the run ends there: the result of the first is lost, no turn aggregating the
  results is appended, and there is no next call of the server.
\<close>

theorem panic_cuts_tool_turn:
  "Run 1 the_agent two_calls_world [''go''] =
     ([Println_banner, Print_prompt, GetUserMessage (Some ''go''),
       Chat_call [\<lparr>Role = ''user'', Content = ''go'', ToolCalls = []\<rparr>],
       Printf_tool ''list_files'' (Parsable (JObject [(''path'', JString ''notes'')])),
       Printf_tool ''read_file'' (Parsable (JObject [(''path'', JNumber ''7'')]))],
      \<lparr>conversation =
         [\<lparr>Role = ''user'', Content = ''go'', ToolCalls = []\<rparr>,
          \<lparr>Role = ''assistant'', Content = [],
            ToolCalls = [\<lparr>Call_Name = ''list_files'', Call_Arguments = Parsable (JObject [(''path'', JString ''notes'')])\<rparr>,
                         \<lparr>Call_Name = ''read_file'', Call_Arguments = Parsable (JObject [(''path'', JNumber ''7'')])\<rparr>]\<rparr>],
        readUserInput = False, stdin = [], calls = 1\<rparr>,
      Some (Crashes (UnmarshalTypeError ''number'' ''string'' ''ReadFileInput'' ''path'')))"
  by code_simp

end
